theory Spec2Isabelle
  imports Complex_Main "HOL-Library.Monad_Syntax"
begin

section \<open>Values\<close>

text \<open>
  The upstream endpoint answers with a JSON document; \<^verbatim>\<open>response.json()\<close> decodes it
  into Python values. Nothing in the source checks their types before use, so the model
  keeps every shape a decoded document can have. A Python float is a finite number, an
  infinity or NaN; the finite ones are read as reals (the source only compares them with
  integer constants, which Python does exactly). A Python string is the list of its code
  points, so its length is what \<^verbatim>\<open>len\<close> counts. A dict is the list of its items in
  insertion order.
\<close>

datatype pyfloat = Fin real | PInf | NInf | NaN

type_synonym pystr = "nat list"

text \<open>A string given by its ASCII text.\<close>

definition str :: "string \<Rightarrow> pystr" where
  "str s = map of_char s"

datatype json =
    JNull
  | JBool bool
  | JInt int
  | JFloat pyfloat
  | JStr pystr
  | JList "json list"
  | JObj "(pystr \<times> json) list"

text \<open>The values SQLite stores: NULL, a 64-bit INTEGER, a REAL, a TEXT.\<close>

datatype sqlval = SNull | SInt int | SReal pyfloat | SText pystr

subsection \<open>The platform\<close>

text \<open>
  Tables and conversions of the Python runtime and of SQLite that the source relies on and
  that are no part of the repository. They are parameters of the model, and every theorem
  holds whatever they are:
  \<^item> \<open>upper_table\<close>: the upper-case form that \<^verbatim>\<open>str.upper\<close> gives a character
    outside ASCII, which the Unicode tables fix and which may be several characters;
  \<^item> \<open>real_text\<close>: the text SQLite writes for a REAL that goes into a TEXT column;
  \<^item> \<open>text_number\<close>: the INTEGER or REAL that SQLite reads from a text that goes into a
    numeric column, \<^verbatim>\<open>None\<close> for a text that is no well-formed number;
  \<^item> \<open>int_double\<close>: the double nearest to an integer beyond \<open>2 ^ 53\<close> in absolute
    value.
\<close>

record platform =
  upper_table :: "nat \<Rightarrow> pystr"
  real_text :: "pyfloat \<Rightarrow> pystr"
  text_number :: "pystr \<Rightarrow> sqlval option"
  int_double :: "int \<Rightarrow> pyfloat"

subsection \<open>Python's operations on values\<close>

text \<open>Truth value of a Python object, as used by \<^verbatim>\<open>if x\<close> and \<^verbatim>\<open>not x\<close>.\<close>

fun truthy :: "json \<Rightarrow> bool" where
  "truthy JNull = False"
| "truthy (JBool b) = b"
| "truthy (JInt n) = (n \<noteq> 0)"
| "truthy (JFloat f) = (f \<noteq> Fin 0)"
| "truthy (JStr s) = (s \<noteq> [])"
| "truthy (JList xs) = (xs \<noteq> [])"
| "truthy (JObj kvs) = (kvs \<noteq> [])"

text \<open>\<^verbatim>\<open>isinstance(x, int)\<close>: \<^verbatim>\<open>bool\<close> is a subclass of \<^verbatim>\<open>int\<close>.\<close>

fun isinstance_int :: "json \<Rightarrow> bool" where
  "isinstance_int (JInt n) = True"
| "isinstance_int (JBool b) = True"
| "isinstance_int v = False"

text \<open>
  \<^verbatim>\<open>len(x)\<close>: defined on strings, lists and dicts; \<^verbatim>\<open>None\<close> here stands for the
  \<^verbatim>\<open>TypeError\<close> Python raises on the other values.
\<close>

fun py_len :: "json \<Rightarrow> nat option" where
  "py_len (JStr s) = Some (length s)"
| "py_len (JList xs) = Some (length xs)"
| "py_len (JObj kvs) = Some (length kvs)"
| "py_len v = None"

text \<open>
  \<^verbatim>\<open>x[i]\<close> for a non-negative literal index: an element of a list, a one-character
  string of a string; \<^verbatim>\<open>None\<close> stands for the exception raised otherwise
  (\<^verbatim>\<open>IndexError\<close> out of range, \<^verbatim>\<open>KeyError\<close> on a dict, whose keys are strings,
  \<^verbatim>\<open>TypeError\<close> on the rest).
\<close>

fun getitem :: "json \<Rightarrow> nat \<Rightarrow> json option" where
  "getitem (JList xs) i = (if i < length xs then Some (xs ! i) else None)"
| "getitem (JStr s) i = (if i < length s then Some (JStr [s ! i]) else None)"
| "getitem v i = None"

text \<open>
  \<^verbatim>\<open>for x in v\<close>: the elements of a list, the characters of a string, the keys of a
  dict; \<^verbatim>\<open>None\<close> stands for the \<^verbatim>\<open>TypeError\<close> raised on a value that is not iterable.
\<close>

fun py_iter :: "json \<Rightarrow> json list option" where
  "py_iter (JList xs) = Some xs"
| "py_iter (JStr s) = Some (map (\<lambda>c. JStr [c]) s)"
| "py_iter (JObj kvs) = Some (map (\<lambda>kv. JStr (fst kv)) kvs)"
| "py_iter v = None"

subsection \<open>Strings\<close>

text \<open>
  The code points for which \<^verbatim>\<open>str.isspace\<close> holds, which are those that
  \<^verbatim>\<open>str.strip()\<close> removes: the ASCII controls 9 to 13 and 28 to 31, the space,
  U+0085, U+00A0, U+1680, U+2000 to U+200A, U+2028, U+2029, U+202F, U+205F and U+3000.
\<close>

definition py_isspace :: "nat \<Rightarrow> bool" where
  "py_isspace c = (c \<in> set [9, 10, 11, 12, 13, 28, 29, 30, 31, 32, 133, 160, 5760,
                             8192, 8193, 8194, 8195, 8196, 8197, 8198, 8199, 8200, 8201,
                             8202, 8232, 8233, 8239, 8287, 12288])"

definition py_strip :: "pystr \<Rightarrow> pystr" where
  "py_strip s = rev (dropWhile py_isspace (rev (dropWhile py_isspace s)))"

text \<open>
  \<^verbatim>\<open>str.upper\<close> works character by character: an ASCII lower-case letter becomes its
  capital, any other ASCII character stays, and a character outside ASCII becomes what
  the platform's table says.
\<close>

definition upper_char :: "platform \<Rightarrow> nat \<Rightarrow> pystr" where
  "upper_char pf c =
     (if 97 \<le> c \<and> c \<le> 122 then [c - 32]
      else if c < 128 then [c]
      else upper_table pf c)"

definition py_upper :: "platform \<Rightarrow> pystr \<Rightarrow> pystr" where
  "py_upper pf s = concat (map (upper_char pf) s)"

text \<open>
  \<^verbatim>\<open>x.strip()\<close> and \<^verbatim>\<open>x.upper()\<close> are methods of strings only; \<^verbatim>\<open>None\<close> stands
  for the \<^verbatim>\<open>AttributeError\<close> on any other value.
\<close>

fun str_strip :: "json \<Rightarrow> json option" where
  "str_strip (JStr s) = Some (JStr (py_strip s))"
| "str_strip v = None"

fun str_upper :: "platform \<Rightarrow> json \<Rightarrow> json option" where
  "str_upper pf (JStr s) = Some (JStr (py_upper pf s))"
| "str_upper pf v = None"

subsection \<open>Numbers\<close>

text \<open>
  The numeric reading of a value in a comparison with an integer: integers and booleans
  (\<^verbatim>\<open>False\<close> is 0, \<^verbatim>\<open>True\<close> is 1) are exact, floats are themselves; \<^verbatim>\<open>None\<close>
  stands for the \<^verbatim>\<open>TypeError\<close> of an ordering comparison with anything else.
\<close>

fun as_number :: "json \<Rightarrow> pyfloat option" where
  "as_number (JInt n) = Some (Fin (real_of_int n))"
| "as_number (JBool b) = Some (Fin (if b then 1 else 0))"
| "as_number (JFloat f) = Some f"
| "as_number v = None"

fun float_le :: "pyfloat \<Rightarrow> pyfloat \<Rightarrow> bool" where
  "float_le NaN y = False"
| "float_le x NaN = False"
| "float_le NInf y = True"
| "float_le x PInf = True"
| "float_le (Fin x) (Fin y) = (x \<le> y)"
| "float_le x y = False"

text \<open>The chained comparison \<^verbatim>\<open>lo <= v <= hi\<close> with integer constants \<open>lo\<close>, \<open>hi\<close>.\<close>

definition chained_le :: "int \<Rightarrow> json \<Rightarrow> int \<Rightarrow> bool option" where
  "chained_le lo v hi =
     map_option (\<lambda>x. float_le (Fin (real_of_int lo)) x \<and> float_le x (Fin (real_of_int hi)))
       (as_number v)"

text \<open>\<^verbatim>\<open>v is not None and not (lo <= v <= hi)\<close>\<close>

definition out_of_range :: "int \<Rightarrow> json \<Rightarrow> int \<Rightarrow> bool option" where
  "out_of_range lo v hi = (if v \<noteq> JNull then map_option Not (chained_le lo v hi) else Some False)"

text \<open>\<^verbatim>\<open>v == k\<close> for an integer constant \<open>k\<close>; equality never raises.\<close>

fun eq_int :: "json \<Rightarrow> int \<Rightarrow> bool" where
  "eq_int (JInt n) k = (n = k)"
| "eq_int (JBool b) k = ((if b then 1 else 0) = k)"
| "eq_int (JFloat (Fin x)) k = (x = real_of_int k)"
| "eq_int v k = False"

text \<open>\<^verbatim>\<open>v in (0, 1)\<close>\<close>

definition in_0_1 :: "json \<Rightarrow> bool" where
  "in_0_1 v = (eq_int v 0 \<or> eq_int v 1)"

section \<open>The record normalizer\<close>

text \<open>
  The tuple appended to \<^verbatim>\<open>records_to_insert\<close>: the seventeen fields of the
  observation and the fetch time of the cycle, which is the text that
  \<^verbatim>\<open>datetime.utcnow().isoformat()\<close> returns.
\<close>

record canon =
  icao24 :: json
  callsign :: json
  origin_country :: json
  time_position :: json
  last_contact :: json
  longitude :: json
  latitude :: json
  baro_altitude :: json
  on_ground :: json
  velocity :: json
  true_track :: json
  vertical_rate :: json
  sensors :: json
  geo_altitude :: json
  squawk :: json
  spi :: json
  position_source :: json
  fetch_time :: string

text \<open>
  What one pass of the loop body does with a state. \<open>Accepted r\<close>: \<open>r\<close> is appended to
  \<^verbatim>\<open>records_to_insert\<close>. \<open>Skipped\<close>: \<^verbatim>\<open>skipped += 1\<close>. \<open>Dropped\<close>: the state has
  fewer than 17 fields and the body is not entered. \<open>Raised\<close>: \<^verbatim>\<open>len(state)\<close> raised
  outside the \<^verbatim>\<open>try\<close>.
\<close>

datatype verdict = Accepted canon | Skipped | Dropped | Raised

text \<open>
  The squawk coercion (02_extract.py lines 84-87 and 247-250).
\<close>

definition coerce_squawk :: "json \<Rightarrow> json option" where
  "coerce_squawk sq =
     (if sq \<noteq> JNull then
        do {
          sq' \<leftarrow> str_strip sq;
          n \<leftarrow> py_len sq';
          Some (if n \<noteq> 4 then JNull else sq')
        }
      else Some sq)"

text \<open>
  The body of the \<^verbatim>\<open>try\<close> (02_extract.py lines 45-95 and 209-258, which are the same
  text), in its two parts. \<^verbatim>\<open>None\<close> is an exception raised inside it.

  First the extraction of the seventeen fields (lines 45-61), the call sign trimmed and
  upper-cased when it is truthy and replaced by \<^verbatim>\<open>None\<close> otherwise.
\<close>

definition extract_fields :: "platform \<Rightarrow> json \<Rightarrow> string \<Rightarrow> canon option" where
  "extract_fields pf state ft =
     do {
       icao24 \<leftarrow> getitem state 0;
       s1 \<leftarrow> getitem state 1;
       callsign \<leftarrow> (if truthy s1 then do { t \<leftarrow> str_strip s1; str_upper pf t } else Some JNull);
       origin_country \<leftarrow> getitem state 2;
       time_position \<leftarrow> getitem state 3;
       last_contact \<leftarrow> getitem state 4;
       longitude \<leftarrow> getitem state 5;
       latitude \<leftarrow> getitem state 6;
       baro_altitude \<leftarrow> getitem state 7;
       on_ground \<leftarrow> getitem state 8;
       velocity \<leftarrow> getitem state 9;
       true_track \<leftarrow> getitem state 10;
       vertical_rate \<leftarrow> getitem state 11;
       sensors \<leftarrow> getitem state 12;
       geo_altitude \<leftarrow> getitem state 13;
       squawk \<leftarrow> getitem state 14;
       spi \<leftarrow> getitem state 15;
       position_source \<leftarrow> getitem state 16;
       Some \<lparr>
         icao24 = icao24, callsign = callsign, origin_country = origin_country,
         time_position = time_position, last_contact = last_contact,
         longitude = longitude, latitude = latitude, baro_altitude = baro_altitude,
         on_ground = on_ground, velocity = velocity, true_track = true_track,
         vertical_rate = vertical_rate, sensors = sensors,
         geo_altitude = geo_altitude, squawk = squawk, spi = spi,
         position_source = position_source, fetch_time = ft \<rparr>
     }"

text \<open>
  Then the validations (lines 64-82), each leaving by \<^verbatim>\<open>skipped += 1; continue\<close>,
  the squawk coercion, and the tuple that is appended (lines 84-95).
\<close>

definition validate :: "canon \<Rightarrow> verdict option" where
  "validate r =
     (if \<not> truthy (icao24 r) \<or> \<not> isinstance_int (last_contact r) then Some Skipped else
      do {
        bad_lon \<leftarrow> out_of_range (- 180) (longitude r) 180;
        if bad_lon then Some Skipped else
        do {
          bad_lat \<leftarrow> out_of_range (- 90) (latitude r) 90;
          if bad_lat then Some Skipped else
          do {
            bad_track \<leftarrow> out_of_range 0 (true_track r) 360;
            if bad_track then Some Skipped else
            if \<not> in_0_1 (on_ground r) \<or> \<not> in_0_1 (spi r) then Some Skipped else
            do {
              squawk' \<leftarrow> coerce_squawk (squawk r);
              Some (Accepted (r\<lparr>squawk := squawk'\<rparr>))
            }
          }
        }
      })"

definition try_body :: "platform \<Rightarrow> json \<Rightarrow> string \<Rightarrow> verdict option" where
  "try_body pf state ft = do { r \<leftarrow> extract_fields pf state ft; validate r }"

text \<open>
  One pass of the loop body (lines 41-99 and 206-263): the length guard, the \<^verbatim>\<open>try\<close>,
  and \<^verbatim>\<open>except Exception: skipped += 1\<close>.
\<close>

definition normalize :: "platform \<Rightarrow> json \<Rightarrow> string \<Rightarrow> verdict" where
  "normalize pf state ft =
     (case py_len state of
        None \<Rightarrow> Raised
      | Some n \<Rightarrow>
          if n \<ge> 17 then (case try_body pf state ft of None \<Rightarrow> Skipped | Some v \<Rightarrow> v)
          else Dropped)"

text \<open>
  The loop over the states, with its two accumulators. \<^verbatim>\<open>None\<close>: an exception left
  the loop.
\<close>

fun process_states ::
  "platform \<Rightarrow> json list \<Rightarrow> string \<Rightarrow> canon list \<Rightarrow> nat \<Rightarrow> (canon list \<times> nat) option" where
  "process_states pf [] ft records skipped = Some (records, skipped)"
| "process_states pf (state # states) ft records skipped =
     (case normalize pf state ft of
        Accepted r \<Rightarrow> process_states pf states ft (records @ [r]) skipped
      | Skipped \<Rightarrow> process_states pf states ft records (skipped + 1)
      | Dropped \<Rightarrow> process_states pf states ft records skipped
      | Raised \<Rightarrow> None)"

section \<open>The store\<close>

text \<open>
  The store is the SQLite table \<^verbatim>\<open>opensky_data\<close> that 01_DB_created.py declares, reached
  through Python's \<^verbatim>\<open>sqlite3\<close> module. The model follows the statements the source
  issues: the declared columns with their types and constraints, the two \<^verbatim>\<open>INSERT\<close>
  statements, and the module's transaction handling (a transaction is opened before the
  first \<^verbatim>\<open>INSERT\<close>, \<^verbatim>\<open>commit\<close> makes it durable, closing the connection discards
  what was not committed).
\<close>

datatype column =
    Icao24 | Callsign | Origin_country | Time_position | Last_contact | Longitude
  | Latitude | Baro_altitude | On_ground | Velocity | True_track | Vertical_rate
  | Sensors | Geo_altitude | Squawk | Spi | Position_source | Fetch_time

type_synonym row = "column \<Rightarrow> sqlval"

text \<open>
  Rows are found by the primary key \<^verbatim>\<open>(icao24, last_contact)\<close>. SQLite compares key
  values by storage class: texts by their characters, and numbers by their value, so that
  an INTEGER and a REAL of the same value are the same key. \<open>key_value\<close> gives every
  number of integral value the one representative.
\<close>

type_synonym table = "(sqlval \<times> sqlval) \<rightharpoonup> row"

definition key_value :: "sqlval \<Rightarrow> sqlval" where
  "key_value v =
     (case v of
        SReal (Fin x) \<Rightarrow> if real_of_int \<lfloor>x\<rfloor> = x then SInt \<lfloor>x\<rfloor> else v
      | _ \<Rightarrow> v)"

definition pkey :: "row \<Rightarrow> sqlval \<times> sqlval" where
  "pkey r = (key_value (r Icao24), key_value (r Last_contact))"

text \<open>
  An exception raised by a database call: \<open>SqliteError\<close> is any subclass of
  \<^verbatim>\<open>sqlite3.Error\<close>, which both functions catch; \<open>OtherError\<close> is any other
  exception, which they do not.
\<close>

datatype db_exn = SqliteError | OtherError

subsection \<open>Binding the parameters\<close>

text \<open>
  A string holding a surrogate code point (U+D800 to U+DFFF) has no UTF-8 encoding.
\<close>

definition has_surrogate :: "pystr \<Rightarrow> bool" where
  "has_surrogate s = list_ex (\<lambda>c. 55296 \<le> c \<and> c \<le> 57343) s"

text \<open>
  How \<^verbatim>\<open>sqlite3\<close> binds a Python value to a \<^verbatim>\<open>?\<close>: \<^verbatim>\<open>None\<close> is NULL; an integer
  (or boolean) is a 64-bit INTEGER, with \<^verbatim>\<open>OverflowError\<close> beyond that range; a float
  is a REAL, NaN being stored as NULL; a string is a TEXT, with
  \<^verbatim>\<open>UnicodeEncodeError\<close> when it cannot be encoded; a list or a dict is not supported
  (\<^verbatim>\<open>sqlite3.ProgrammingError\<close>).
\<close>

fun bind_param :: "json \<Rightarrow> db_exn + sqlval" where
  "bind_param JNull = Inr SNull"
| "bind_param (JBool b) = Inr (SInt (if b then 1 else 0))"
| "bind_param (JInt n) =
     (if - (2 ^ 63) \<le> n \<and> n < 2 ^ 63 then Inr (SInt n) else Inl OtherError)"
| "bind_param (JFloat f) = Inr (if f = NaN then SNull else SReal f)"
| "bind_param (JStr s) = (if has_surrogate s then Inl OtherError else Inr (SText s))"
| "bind_param (JList xs) = Inl SqliteError"
| "bind_param (JObj kvs) = Inl SqliteError"

fun bind_params :: "json list \<Rightarrow> db_exn + sqlval list" where
  "bind_params [] = Inr []"
| "bind_params (v # vs) =
     (case bind_param v of
        Inl e \<Rightarrow> Inl e
      | Inr x \<Rightarrow> (case bind_params vs of Inl e \<Rightarrow> Inl e | Inr xs \<Rightarrow> Inr (x # xs)))"

text \<open>The column list of both \<^verbatim>\<open>INSERT\<close> statements, and the tuple given for it.\<close>

definition insert_columns :: "column list" where
  "insert_columns =
     [Icao24, Callsign, Origin_country, Time_position, Last_contact,
      Longitude, Latitude, Baro_altitude, On_ground, Velocity,
      True_track, Vertical_rate, Sensors, Geo_altitude, Squawk,
      Spi, Position_source, Fetch_time]"

definition tuple_of :: "canon \<Rightarrow> json list" where
  "tuple_of r =
     [icao24 r, callsign r, origin_country r, time_position r, last_contact r,
      longitude r, latitude r, baro_altitude r, on_ground r, velocity r,
      true_track r, vertical_rate r, sensors r, geo_altitude r, squawk r,
      spi r, position_source r, JStr (str (fetch_time r))]"

definition row_of :: "sqlval list \<Rightarrow> row" where
  "row_of vs = (\<lambda>c. case map_of (zip insert_columns vs) c of Some v \<Rightarrow> v | None \<Rightarrow> SNull)"

subsection \<open>Column affinity\<close>

text \<open>
  SQLite converts a value to the affinity of its column before it checks the constraints
  and stores the row. The affinity follows from the declared type (01_DB_created.py lines
  19-36): \<^verbatim>\<open>TEXT\<close>, \<^verbatim>\<open>INTEGER\<close> and \<^verbatim>\<open>REAL\<close> give their own, \<^verbatim>\<open>BOOLEAN\<close> gives
  NUMERIC.
\<close>

datatype affinity = TextAff | NumericAff | IntegerAff | RealAff

fun column_affinity :: "column \<Rightarrow> affinity" where
  "column_affinity Icao24 = TextAff"
| "column_affinity Callsign = TextAff"
| "column_affinity Origin_country = TextAff"
| "column_affinity Time_position = IntegerAff"
| "column_affinity Last_contact = IntegerAff"
| "column_affinity Longitude = RealAff"
| "column_affinity Latitude = RealAff"
| "column_affinity Baro_altitude = RealAff"
| "column_affinity On_ground = NumericAff"
| "column_affinity Velocity = RealAff"
| "column_affinity True_track = RealAff"
| "column_affinity Vertical_rate = RealAff"
| "column_affinity Sensors = TextAff"
| "column_affinity Geo_altitude = RealAff"
| "column_affinity Squawk = TextAff"
| "column_affinity Spi = NumericAff"
| "column_affinity Position_source = IntegerAff"
| "column_affinity Fetch_time = TextAff"

text \<open>The decimal text of an integer, which is what a TEXT column keeps of it.\<close>

fun digits :: "nat \<Rightarrow> pystr" where
  "digits n = (if n < 10 then [48 + n] else digits (n div 10) @ [48 + n mod 10])"

declare digits.simps [simp del]

definition int_text :: "int \<Rightarrow> pystr" where
  "int_text i = (if i < 0 then 45 # digits (nat (- i)) else digits (nat i))"

text \<open>
  TEXT affinity: a number is stored as its text.
\<close>

fun text_affinity :: "platform \<Rightarrow> sqlval \<Rightarrow> sqlval" where
  "text_affinity pf (SInt n) = SText (int_text n)"
| "text_affinity pf (SReal f) = SText (real_text pf f)"
| "text_affinity pf v = v"

text \<open>
  NUMERIC and INTEGER affinity, which insert alike: a REAL that is a whole number strictly
  between the least and the greatest 64-bit integer is stored as that INTEGER; a text
  that is a well-formed number is stored as the number; anything else is kept.
\<close>

definition integer_if_exact :: "pyfloat \<Rightarrow> sqlval" where
  "integer_if_exact f =
     (case f of
        Fin x \<Rightarrow>
          if real_of_int \<lfloor>x\<rfloor> = x \<and> - (2 ^ 63) < x \<and> x < 2 ^ 63 - 1 then SInt \<lfloor>x\<rfloor>
          else SReal f
      | _ \<Rightarrow> SReal f)"

fun numeric_affinity :: "platform \<Rightarrow> sqlval \<Rightarrow> sqlval" where
  "numeric_affinity pf (SText s) = (case text_number pf s of Some v \<Rightarrow> v | None \<Rightarrow> SText s)"
| "numeric_affinity pf (SReal f) = integer_if_exact f"
| "numeric_affinity pf v = v"

text \<open>
  REAL affinity: as NUMERIC, but an INTEGER becomes the REAL of the same value, which is
  exact up to \<open>2 ^ 53\<close> and the nearest double beyond.
\<close>

definition to_double :: "platform \<Rightarrow> int \<Rightarrow> pyfloat" where
  "to_double pf n = (if \<bar>n\<bar> \<le> 2 ^ 53 then Fin (real_of_int n) else int_double pf n)"

fun real_affinity :: "platform \<Rightarrow> sqlval \<Rightarrow> sqlval" where
  "real_affinity pf (SInt n) = SReal (to_double pf n)"
| "real_affinity pf (SText s) =
     (case text_number pf s of
        Some (SInt n) \<Rightarrow> SReal (to_double pf n)
      | Some v \<Rightarrow> v
      | None \<Rightarrow> SText s)"
| "real_affinity pf v = v"

definition apply_affinity :: "platform \<Rightarrow> column \<Rightarrow> sqlval \<Rightarrow> sqlval" where
  "apply_affinity pf c v =
     (case column_affinity c of
        TextAff \<Rightarrow> text_affinity pf v
      | NumericAff \<Rightarrow> numeric_affinity pf v
      | IntegerAff \<Rightarrow> numeric_affinity pf v
      | RealAff \<Rightarrow> real_affinity pf v)"

text \<open>
  The row an \<^verbatim>\<open>INSERT\<close> works with for a tuple: the bound values, each converted to the
  affinity of its column; or the exception of the binding.
\<close>

definition bind_row :: "platform \<Rightarrow> canon \<Rightarrow> db_exn + row" where
  "bind_row pf r =
     (case bind_params (tuple_of r) of
        Inl e \<Rightarrow> Inl e
      | Inr vs \<Rightarrow> Inr (\<lambda>c. apply_affinity pf c (row_of vs c)))"

subsection \<open>The declared constraints\<close>

text \<open>
  SQL comparisons have three values; \<^verbatim>\<open>None\<close> is NULL. A number compares by value,
  a text is greater than every number. A \<^verbatim>\<open>CHECK\<close> fails only when its expression
  is false.
\<close>

fun sql_number :: "sqlval \<Rightarrow> pyfloat option" where
  "sql_number (SInt n) = Some (Fin (real_of_int n))"
| "sql_number (SReal f) = Some f"
| "sql_number v = None"

definition sql_between :: "sqlval \<Rightarrow> int \<Rightarrow> int \<Rightarrow> bool option" where
  "sql_between v lo hi =
     (case v of
        SNull \<Rightarrow> None
      | SText t \<Rightarrow> Some False
      | _ \<Rightarrow> map_option
               (\<lambda>x. float_le (Fin (real_of_int lo)) x \<and> float_le x (Fin (real_of_int hi)))
               (sql_number v))"

definition sql_in :: "sqlval \<Rightarrow> int list \<Rightarrow> bool option" where
  "sql_in v ks =
     (case v of
        SNull \<Rightarrow> None
      | SText t \<Rightarrow> Some False
      | _ \<Rightarrow> map_option (\<lambda>x. x \<in> set (map (\<lambda>k. Fin (real_of_int k)) ks)) (sql_number v))"

definition check_ok :: "bool option \<Rightarrow> bool" where
  "check_ok e = (e \<noteq> Some False)"

definition not_null_columns :: "column list" where
  "not_null_columns = [Icao24, Origin_country, Last_contact, On_ground, Spi, Fetch_time]"

definition constraints_ok :: "row \<Rightarrow> bool" where
  "constraints_ok r =
     ((\<forall>c \<in> set not_null_columns. r c \<noteq> SNull)
      \<and> check_ok (sql_between (r Longitude) (- 180) 180)
      \<and> check_ok (sql_between (r Latitude) (- 90) 90)
      \<and> check_ok (sql_in (r On_ground) [0, 1])
      \<and> check_ok (sql_between (r True_track) 0 360)
      \<and> check_ok (sql_in (r Spi) [0, 1])
      \<and> check_ok (sql_in (r Position_source) [0, 1, 2]))"

subsection \<open>The two statements\<close>

text \<open>
  \<^verbatim>\<open>INSERT OR IGNORE\<close> (02_extract.py lines 103-110): a row that violates a
  \<^verbatim>\<open>NOT NULL\<close>, \<^verbatim>\<open>CHECK\<close> or primary key constraint is skipped and the statement
  succeeds.
\<close>

definition insert_or_ignore :: "table \<Rightarrow> row \<Rightarrow> db_exn + table" where
  "insert_or_ignore t r =
     (if \<not> constraints_ok r then Inr t
      else case t (pkey r) of
             None \<Rightarrow> Inr (t(pkey r \<mapsto> r))
           | Some old \<Rightarrow> Inr t)"

text \<open>
  The \<^verbatim>\<open>SET\<close> list of the upsert (lines 274-289): the columns taken from the excluded
  row, the others kept from the stored one.
\<close>

definition update_columns :: "column list" where
  "update_columns =
     [Callsign, Origin_country, Time_position, Longitude, Latitude, Baro_altitude,
      On_ground, Velocity, True_track, Vertical_rate, Sensors, Geo_altitude, Squawk,
      Spi, Position_source, Fetch_time]"

definition do_update_set :: "row \<Rightarrow> row \<Rightarrow> row" where
  "do_update_set old excluded = (\<lambda>c. if c \<in> set update_columns then excluded c else old c)"

text \<open>
  \<^verbatim>\<open>INSERT ... ON CONFLICT(icao24, last_contact) DO UPDATE SET ...\<close> (lines 266-290):
  a \<^verbatim>\<open>NOT NULL\<close> or \<^verbatim>\<open>CHECK\<close> violation aborts the statement with
  \<^verbatim>\<open>sqlite3.IntegrityError\<close>; a row with a new key is inserted; on a key that exists
  the stored row is updated.
\<close>

definition upsert :: "table \<Rightarrow> row \<Rightarrow> db_exn + table" where
  "upsert t r =
     (if \<not> constraints_ok r then Inl SqliteError
      else case t (pkey r) of
             None \<Rightarrow> Inr (t(pkey r \<mapsto> r))
           | Some old \<Rightarrow>
               (let new = do_update_set old r
                in if constraints_ok new then Inr (t(pkey r \<mapsto> new)) else Inl SqliteError))"

subsection \<open>Connections and transactions\<close>

text \<open>
  A connection sees the durable content of the file and, once a statement has run, the
  content of its open transaction. A fault is a failure of the storage itself
  (unreachable file, I/O error, lock), injected by the environment at one point of a
  cycle.
\<close>

record conn =
  durable :: table
  pending :: "table option"

datatype fault = NoFault | ConnectFails | StatementFails nat | CommitFails

definition connect :: "fault \<Rightarrow> table \<Rightarrow> db_exn + conn" where
  "connect flt t =
     (if flt = ConnectFails then Inl SqliteError else Inr \<lparr> durable = t, pending = None \<rparr>)"

definition current :: "conn \<Rightarrow> table" where
  "current c = (case pending c of None \<Rightarrow> durable c | Some t \<Rightarrow> t)"

definition commit :: "fault \<Rightarrow> conn \<Rightarrow> conn \<times> db_exn option" where
  "commit flt c =
     (if flt = CommitFails then (c, Some SqliteError)
      else (c\<lparr> durable := current c, pending := None \<rparr>, None))"

text \<open>\<^verbatim>\<open>conn.close()\<close>: what the file holds afterwards.\<close>

definition close :: "conn \<Rightarrow> table" where
  "close c = durable c"

text \<open>
  \<^verbatim>\<open>cursor.executemany(query, records)\<close>: the statement is run once per tuple, in
  order, inside the connection's transaction; the first exception ends the call and
  leaves the transaction open with the rows written so far. \<open>i\<close> counts the tuples
  already run. The connection is returned as the call leaves it, with the exception
  raised, if any.
\<close>

fun executemany ::
  "platform \<Rightarrow> (table \<Rightarrow> row \<Rightarrow> db_exn + table) \<Rightarrow> fault \<Rightarrow> nat \<Rightarrow> canon list \<Rightarrow> conn
     \<Rightarrow> conn \<times> db_exn option" where
  "executemany pf stmt flt i [] c = (c, None)"
| "executemany pf stmt flt i (r # rs) c =
     (if flt = StatementFails i then (c, Some SqliteError)
      else case bind_row pf r of
             Inl e \<Rightarrow> (c, Some e)
           | Inr row \<Rightarrow>
               (case stmt (current c) row of
                  Inl e \<Rightarrow> (c\<lparr> pending := Some (current c) \<rparr>, Some e)
                | Inr t \<Rightarrow> executemany pf stmt flt (i + 1) rs (c\<lparr> pending := Some t \<rparr>)))"

section \<open>The cycles\<close>

text \<open>
  How a call of one of the two cycle functions ends: by one of its \<^verbatim>\<open>return\<close>s or
  log lines, or, for \<open>Uncaught\<close>, by an exception that none of its \<^verbatim>\<open>except\<close>
  clauses catches.
\<close>

datatype outcome =
    NoData
  | NoFlightData
  | NoValidRecords
  | Written nat nat
  | DatabaseError
  | ApiError
  | Uncaught

text \<open>
  The end of both functions (lines 101-123 and 265-301): the batch is written and
  committed when it is not empty; \<^verbatim>\<open>sqlite3.Error\<close> is logged; the connection is
  closed in every case. The result is the outcome and the content of the file.
\<close>

definition apply_batch ::
  "platform \<Rightarrow> (table \<Rightarrow> row \<Rightarrow> db_exn + table) \<Rightarrow> fault \<Rightarrow> canon list \<Rightarrow> nat \<Rightarrow> conn
     \<Rightarrow> outcome \<times> table" where
  "apply_batch pf stmt flt records skipped c =
     (if records \<noteq> [] then
        (case executemany pf stmt flt 0 records c of
           (c1, Some SqliteError) \<Rightarrow> (DatabaseError, close c1)
         | (c1, Some OtherError) \<Rightarrow> (Uncaught, close c1)
         | (c1, None) \<Rightarrow>
             (case commit flt c1 of
                (c2, Some SqliteError) \<Rightarrow> (DatabaseError, close c2)
              | (c2, Some OtherError) \<Rightarrow> (Uncaught, close c2)
              | (c2, None) \<Rightarrow> (Written (length records) skipped, close c2)))
      else (NoValidRecords, close c))"

text \<open>
  The loop and the end of both functions, from the value bound to \<^verbatim>\<open>states\<close> on. A
  \<^verbatim>\<open>TypeError\<close> of \<^verbatim>\<open>for state in states\<close> or of \<^verbatim>\<open>len(state)\<close> is caught by
  neither function.
\<close>

definition load_states ::
  "platform \<Rightarrow> (table \<Rightarrow> row \<Rightarrow> db_exn + table) \<Rightarrow> fault \<Rightarrow> json \<Rightarrow> string \<Rightarrow> conn
     \<Rightarrow> outcome \<times> table" where
  "load_states pf stmt flt states ft c =
     (case py_iter states of
        None \<Rightarrow> (Uncaught, close c)
      | Some sts \<Rightarrow>
          (case process_states pf sts ft [] 0 of
             None \<Rightarrow> (Uncaught, close c)
           | Some (records, skipped) \<Rightarrow> apply_batch pf stmt flt records skipped c))"

text \<open>
  \<^verbatim>\<open>data.get("states", [])\<close>: \<^verbatim>\<open>None\<close> stands for the \<^verbatim>\<open>AttributeError\<close> on a
  value that is not a dict.
\<close>

fun get_states :: "json \<Rightarrow> json option" where
  "get_states (JObj kvs) = Some (case map_of kvs (str ''states'') of Some v \<Rightarrow> v | None \<Rightarrow> JList [])"
| "get_states v = None"

subsection \<open>The network\<close>

text \<open>
  What one request yields: the decoded body of a successful response, a
  \<^verbatim>\<open>requests.exceptions.RequestException\<close> (connection error, timeout, status that is
  not 2xx), or an exception of another class.
\<close>

datatype attempt = Response json | RequestFailed | OtherFailure

subsection \<open>The insert-or-ignore cycle\<close>

definition FETCH_INTERVAL_SECONDS :: real where
  "FETCH_INTERVAL_SECONDS = 600"

text \<open>
  \<^verbatim>\<open>fetch_and_append_data\<close> (lines 20-123). It connects first, makes one request, and
  has no retry. \<open>req\<close> is what the request yields, \<open>ft\<close> the time read for
  \<^verbatim>\<open>fetch_time\<close>, \<open>t\<close> the content of the file before the call.
\<close>

definition fetch_and_append_data ::
  "platform \<Rightarrow> attempt \<Rightarrow> string \<Rightarrow> fault \<Rightarrow> table \<Rightarrow> outcome \<times> table" where
  "fetch_and_append_data pf req ft flt t =
     (case connect flt t of
        Inl SqliteError \<Rightarrow> (DatabaseError, t)
      | Inl OtherError \<Rightarrow> (Uncaught, t)
      | Inr c \<Rightarrow>
          (case req of
             RequestFailed \<Rightarrow> (ApiError, close c)
           | OtherFailure \<Rightarrow> (Uncaught, close c)
           | Response data \<Rightarrow>
               (case get_states data of
                  None \<Rightarrow> (Uncaught, close c)
                | Some states \<Rightarrow>
                    if \<not> truthy states then (NoFlightData, close c)
                    else load_states pf insert_or_ignore flt states ft c)))"

subsection \<open>The fetcher with retries and the upsert cycle\<close>

definition MAX_RETRIES :: nat where
  "MAX_RETRIES = 5"

definition RETRY_BACKOFF_FACTOR :: nat where
  "RETRY_BACKOFF_FACTOR = 2"

text \<open>
  The result of \<^verbatim>\<open>fetch_data_with_retries\<close>: the value it returns, \<open>JNull\<close> being
  Python's \<^verbatim>\<open>None\<close>, or an exception it lets through.
\<close>

datatype fetched = Returned json | Propagated

text \<open>
  The loop of \<^verbatim>\<open>fetch_data_with_retries\<close> (lines 173-185) over the attempt numbers
  still to come. \<open>net k\<close> is what the request of attempt \<open>k\<close> yields. The second
  component lists the arguments of \<^verbatim>\<open>time.sleep\<close>, in order.
\<close>

fun attempts_loop :: "(nat \<Rightarrow> attempt) \<Rightarrow> nat list \<Rightarrow> fetched \<times> nat list" where
  "attempts_loop net [] = (Returned JNull, [])"
| "attempts_loop net (attempt # rest) =
     (case net attempt of
        Response data \<Rightarrow> (Returned data, [])
      | RequestFailed \<Rightarrow>
          (let wait_time = RETRY_BACKOFF_FACTOR ^ attempt;
               (res, sleeps) = attempts_loop net rest
           in (res, wait_time # sleeps))
      | OtherFailure \<Rightarrow> (Propagated, []))"

definition fetch_data_with_retries :: "(nat \<Rightarrow> attempt) \<Rightarrow> fetched \<times> nat list" where
  "fetch_data_with_retries net = attempts_loop net [1..<MAX_RETRIES + 1]"

text \<open>
  \<^verbatim>\<open>fetch_and_upsert_data\<close> from the fetched value on (lines 192-301): it connects
  only once there are states.
\<close>

definition upsert_data ::
  "platform \<Rightarrow> json \<Rightarrow> string \<Rightarrow> fault \<Rightarrow> table \<Rightarrow> outcome \<times> table" where
  "upsert_data pf data ft flt t =
     (if \<not> truthy data then (NoData, t)
      else case get_states data of
             None \<Rightarrow> (Uncaught, t)
           | Some states \<Rightarrow>
               if \<not> truthy states then (NoFlightData, t)
               else (case connect flt t of
                       Inl SqliteError \<Rightarrow> (DatabaseError, t)
                     | Inl OtherError \<Rightarrow> (Uncaught, t)
                     | Inr c \<Rightarrow> load_states pf upsert flt states ft c))"

text \<open>\<^verbatim>\<open>fetch_and_upsert_data\<close> (lines 188-301).\<close>

definition fetch_and_upsert_data ::
  "platform \<Rightarrow> (nat \<Rightarrow> attempt) \<Rightarrow> string \<Rightarrow> fault \<Rightarrow> table \<Rightarrow> outcome \<times> table" where
  "fetch_and_upsert_data pf net ft flt t =
     (case fst (fetch_data_with_retries net) of
        Propagated \<Rightarrow> (Uncaught, t)
      | Returned data \<Rightarrow> upsert_data pf data ft flt t)"

section \<open>The schedulers\<close>

text \<open>
  The two main loops. \<open>now\<close> is the clock, \<open>end_time\<close> the time at which the loop
  stops, and the list gives, for each coming cycle, how long its call of the cycle
  function takes. The result lists the arguments of \<^verbatim>\<open>time.sleep\<close>, one per cycle.

  The loop of the insert-or-ignore script (lines 133-145).
\<close>

fun main_loop_append :: "real \<Rightarrow> real \<Rightarrow> real list \<Rightarrow> real list" where
  "main_loop_append now end_time [] = []"
| "main_loop_append now end_time (duration # costs) =
     (if now < end_time then
        (let sleep_time = max 0 (FETCH_INTERVAL_SECONDS - duration)
         in sleep_time # main_loop_append (now + duration + sleep_time) end_time costs)
      else [])"

text \<open>The loop of the upsert script (lines 308-311).\<close>

fun main_loop_upsert :: "real \<Rightarrow> real \<Rightarrow> real list \<Rightarrow> real list" where
  "main_loop_upsert now end_time [] = []"
| "main_loop_upsert now end_time (duration # costs) =
     (if now < end_time then
        FETCH_INTERVAL_SECONDS
          # main_loop_upsert (now + duration + FETCH_INTERVAL_SECONDS) end_time costs
      else [])"

section \<open>Sample data\<close>

text \<open>
  A platform for the examples. None of them has a character outside ASCII, a REAL in a
  TEXT column, a text in a numeric column or an integer beyond \<open>2 ^ 53\<close>, so its
  entries are never consulted.
\<close>

definition sample_platform :: platform where
  "sample_platform =
     \<lparr> upper_table = (\<lambda>c. [c]), real_text = (\<lambda>f. []), text_number = (\<lambda>s. None),
       int_double = (\<lambda>n. Fin (real_of_int n)) \<rparr>"

text \<open>
  The observation of the specification's scenario, as the decoded JSON array, the record
  made of it, and the row stored for that record.
\<close>

definition scenario_state :: "json list" where
  "scenario_state =
     [JStr (str ''ABC123''), JStr (str ''UAL123  ''), JStr (str ''United States''),
      JInt 1000, JInt 1005, JFloat (Fin (- 120.5)), JFloat (Fin 37.5), JInt 10000, JInt 0,
      JFloat (Fin 250.0), JFloat (Fin 90.0), JInt 0, JNull, JInt 10500, JStr (str ''1200''),
      JInt 0, JInt 0]"

definition scenario_record :: "string \<Rightarrow> canon" where
  "scenario_record ft =
     \<lparr> icao24 = JStr (str ''ABC123''), callsign = JStr (str ''UAL123''),
       origin_country = JStr (str ''United States''), time_position = JInt 1000,
       last_contact = JInt 1005, longitude = JFloat (Fin (- 120.5)),
       latitude = JFloat (Fin 37.5), baro_altitude = JInt 10000, on_ground = JInt 0,
       velocity = JFloat (Fin 250.0), true_track = JFloat (Fin 90.0),
       vertical_rate = JInt 0, sensors = JNull, geo_altitude = JInt 10500,
       squawk = JStr (str ''1200''), spi = JInt 0, position_source = JInt 0,
       fetch_time = ft \<rparr>"

definition scenario_row :: "string \<Rightarrow> row" where
  "scenario_row ft = row_of
     [SText (str ''ABC123''), SText (str ''UAL123''), SText (str ''United States''),
      SInt 1000, SInt 1005, SReal (Fin (- 120.5)), SReal (Fin 37.5), SReal (Fin 10000),
      SInt 0, SReal (Fin 250.0), SReal (Fin 90.0), SReal (Fin 0), SNull, SReal (Fin 10500),
      SText (str ''1200''), SInt 0, SInt 0, SText (str ft)]"

text \<open>
  A later observation of the same aircraft at the same last contact, with another call
  sign and velocity, and the row stored for it.
\<close>

definition refreshed_record :: "string \<Rightarrow> canon" where
  "refreshed_record ft =
     (scenario_record ft)\<lparr> callsign := JStr (str ''UAL999''), velocity := JFloat (Fin 260.0) \<rparr>"

definition refreshed_row :: "string \<Rightarrow> row" where
  "refreshed_row ft = row_of
     [SText (str ''ABC123''), SText (str ''UAL999''), SText (str ''United States''),
      SInt 1000, SInt 1005, SReal (Fin (- 120.5)), SReal (Fin 37.5), SReal (Fin 10000),
      SInt 0, SReal (Fin 260.0), SReal (Fin 90.0), SReal (Fin 0), SNull, SReal (Fin 10500),
      SText (str ''1200''), SInt 0, SInt 0, SText (str ft)]"

text \<open>The key of these rows, and the table that holds one row under it.\<close>

definition scenario_key :: "sqlval \<times> sqlval" where
  "scenario_key = (SText (str ''ABC123''), SInt 1005)"

definition one_row :: "row \<Rightarrow> table" where
  "one_row r = [scenario_key \<mapsto> r]"

text \<open>An observation of another aircraft, its row and its key.\<close>

definition other_record :: "string \<Rightarrow> canon" where
  "other_record ft =
     (scenario_record ft)\<lparr> icao24 := JStr (str ''DEF456''), callsign := JNull \<rparr>"

definition other_row :: "string \<Rightarrow> row" where
  "other_row ft = row_of
     [SText (str ''DEF456''), SNull, SText (str ''United States''),
      SInt 1000, SInt 1005, SReal (Fin (- 120.5)), SReal (Fin 37.5), SReal (Fin 10000),
      SInt 0, SReal (Fin 250.0), SReal (Fin 90.0), SReal (Fin 0), SNull, SReal (Fin 10500),
      SText (str ''1200''), SInt 0, SInt 0, SText (str ft)]"

definition other_key :: "sqlval \<times> sqlval" where
  "other_key = (SText (str ''DEF456''), SInt 1005)"

text \<open>
  The same aircraft as in the scenario with its address sent as the number 123, and as
  the text of that number.
\<close>

definition numeric_address_record :: "string \<Rightarrow> canon" where
  "numeric_address_record ft = (scenario_record ft)\<lparr> icao24 := JInt 123 \<rparr>"

definition text_address_record :: "string \<Rightarrow> canon" where
  "text_address_record ft = (scenario_record ft)\<lparr> icao24 := JStr (str ''123'') \<rparr>"

text \<open>
  A response body with the single observation of the scenario, and a network on which
  the first two attempts of a cycle fail and the third succeeds.
\<close>

definition scenario_response :: json where
  "scenario_response =
     JObj [(str ''time'', JInt 1700000000), (str ''states'', JList [JList scenario_state])]"

definition third_attempt :: "nat \<Rightarrow> attempt" where
  "third_attempt k = (if k = 3 then Response scenario_response else RequestFailed)"

section \<open>Properties of the normalizer\<close>

lemma out_of_range_number:
  assumes "as_number v = Some x"
      and "\<not> (float_le (Fin (real_of_int lo)) x \<and> float_le x (Fin (real_of_int hi)))"
  shows "out_of_range lo v hi = Some True"
  using assms by (cases v) (auto simp: out_of_range_def chained_le_def)

lemma validate_verdict:
  "validate r = Some v \<Longrightarrow> v = Skipped \<or> (\<exists>r'. v = Accepted r')"
  by (auto simp: validate_def split: Option.bind_splits if_splits)

lemma validate_out_of_range:
  assumes "out_of_range (- 180) (longitude r) 180 = Some True
         \<or> out_of_range (- 90) (latitude r) 90 = Some True
         \<or> out_of_range 0 (true_track r) 360 = Some True"
  shows "validate r \<noteq> Some (Accepted r')"
  using assms by (auto simp: validate_def split: Option.bind_splits if_splits)

lemma extract_fields_Some:
  assumes "extract_fields pf state ft = Some r"
  shows "getitem state 0 = Some (icao24 r)" "getitem state 5 = Some (longitude r)"
    "getitem state 6 = Some (latitude r)" "getitem state 10 = Some (true_track r)"
    "getitem state 14 = Some (squawk r)"  "getitem state 16 = Some (position_source r)"
  using assms by (auto simp: extract_fields_def split: Option.bind_splits if_splits)

lemma getitem_py_len: "getitem state i = Some v \<Longrightarrow> \<exists>n. py_len state = Some n"
  by (cases state) auto

lemma normalize_cases:
  "py_len state = Some n \<Longrightarrow> normalize pf state ft =
     (if 17 \<le> n then (case extract_fields pf state ft of None \<Rightarrow> Skipped
        | Some r \<Rightarrow> (case validate r of None \<Rightarrow> Skipped | Some v \<Rightarrow> v)) else Dropped)"
  by (simp add: normalize_def try_body_def split: option.splits)

lemma normalize_out_of_range:
  assumes "(i, lo, hi) \<in> {(5, - 180, 180), (6, - 90, 90), (10, 0, 360)}"
      and "getitem state i = Some v"
      and "as_number v = Some x"
      and "\<not> (float_le (Fin (real_of_int lo)) x \<and> float_le x (Fin (real_of_int hi)))"
  shows "normalize pf state ft = Skipped \<or> normalize pf state ft = Dropped"
proof -
  obtain n where n: "py_len state = Some n"
    using getitem_py_len assms(2) by blast
  have oor: "out_of_range lo v hi = Some True"
    using out_of_range_number assms(3,4) by blast
  show ?thesis
  proof (cases "17 \<le> n")
    case False
    then show ?thesis by (simp add: normalize_cases [OF n])
  next
    case True
    show ?thesis
    proof (cases "extract_fields pf state ft")
      case None
      then show ?thesis using True by (simp add: normalize_cases [OF n])
    next
      case (Some r)
      have "out_of_range (- 180) (longitude r) 180 = Some True
         \<or> out_of_range (- 90) (latitude r) 90 = Some True
         \<or> out_of_range 0 (true_track r) 360 = Some True"
        using assms(1,2) oor extract_fields_Some [OF Some] by auto
      then have "validate r = Some Skipped \<or> validate r = None"
        using validate_out_of_range validate_verdict by (cases "validate r") blast+
      then show ?thesis using True Some by (auto simp: normalize_cases [OF n])
    qed
  qed
qed

lemma process_states_append:
  "process_states pf (xs @ ys) ft recs k =
     (case process_states pf xs ft recs k of None \<Rightarrow> None
      | Some (recs', k') \<Rightarrow> process_states pf ys ft recs' k')"
  by (induction xs arbitrary: recs k) (auto split: verdict.splits)

lemma process_states_fst:
  "map_option fst (process_states pf xs ft recs (Suc k)) = map_option fst (process_states pf xs ft recs k)"
  by (induction xs arbitrary: recs k) (auto split: verdict.splits)

text \<open>
  Claim C1. An observation whose longitude, latitude or true track (fields 5, 6 and 10)
  is a number outside its range (\<open>[-180, 180]\<close>, \<open>[-90, 90]\<close>, \<open>[0, 360]\<close>) is
  rejected: the loop body yields no record for it, and the batch built from a list of
  states that contains it is the batch built from the list without it.
\<close>

theorem out_of_range_rejected:
  assumes "(i, lo, hi) \<in> {(5, - 180, 180), (6, - 90, 90), (10, 0, 360)}"
      and "getitem state i = Some v"
      and "as_number v = Some x"
      and "\<not> (float_le (Fin (real_of_int lo)) x \<and> float_le x (Fin (real_of_int hi)))"
  shows "(\<forall>r. normalize pf state ft \<noteq> Accepted r)
       \<and> map_option fst (process_states pf (pre @ state # post) ft [] 0)
           = map_option fst (process_states pf (pre @ post) ft [] 0)"
proof -
  have v: "normalize pf state ft = Skipped \<or> normalize pf state ft = Dropped"
    using normalize_out_of_range [OF assms] .
  have "map_option fst (process_states pf (state # post) ft recs k)
          = map_option fst (process_states pf post ft recs k)" for recs k
    using v process_states_fst by auto
  then have "map_option fst (process_states pf (pre @ state # post) ft [] 0)
           = map_option fst (process_states pf (pre @ post) ft [] 0)"
    by (simp add: process_states_append split: option.splits)
  then show ?thesis using v by auto
qed

lemmas eval_normalize = normalize_def try_body_def extract_fields_def validate_def
  out_of_range_def chained_le_def in_0_1_def coerce_squawk_def py_strip_def py_isspace_def
  py_upper_def upper_char_def str_def

theorem out_of_range_rejected_witness:
  "(6, - 90, 90) \<in> {(5::nat, - 180 :: int, 180 :: int), (6, - 90, 90), (10, 0, 360)}
   \<and> getitem (JList (scenario_state[6 := JFloat (Fin 95.0)])) 6 = Some (JFloat (Fin 95.0))
   \<and> as_number (JFloat (Fin 95.0)) = Some (Fin 95.0)
   \<and> \<not> (float_le (Fin (real_of_int (- 90))) (Fin 95.0)
         \<and> float_le (Fin 95.0) (Fin (real_of_int 90)))
   \<and> (\<forall>r. normalize sample_platform (JList (scenario_state[6 := JFloat (Fin 95.0)]))
              ''T'' \<noteq> Accepted r)
   \<and> map_option fst
        (process_states sample_platform
           ([JList scenario_state] @ JList (scenario_state[6 := JFloat (Fin 95.0)]) # [])
           ''T'' [] 0)
       = map_option fst
           (process_states sample_platform ([JList scenario_state] @ []) ''T'' [] 0)"
  using out_of_range_rejected [where i = 6 and lo = "- 90" and hi = 90
      and state = "JList (scenario_state[6 := JFloat (Fin 95.0)])"
      and v = "JFloat (Fin 95.0)" and x = "Fin 95.0" and pf = sample_platform
      and ft = "''T''" and pre = "[JList scenario_state]" and post = "[]"]
  by (simp add: scenario_state_def)

text \<open>
  Claim C9. The observation of the scenario is accepted, and its record has the call
  sign \<open>UAL123\<close> (trimmed, upper case), the squawk \<open>1200\<close>, \<open>on_ground\<close> and
  \<open>spi\<close> equal to 0, which is false, and the fetch time that was supplied.
\<close>

theorem scenario_accepted:
  "normalize pf (JList scenario_state) ft = Accepted (scenario_record ft)
   \<and> callsign (scenario_record ft) = JStr (py_upper pf (py_strip (str ''UAL123  '')))
   \<and> callsign (scenario_record ft) = JStr (str ''UAL123'')
   \<and> squawk (scenario_record ft) = JStr (str ''1200'')
   \<and> on_ground (scenario_record ft) = JInt 0 \<and> \<not> truthy (on_ground (scenario_record ft))
   \<and> spi (scenario_record ft) = JInt 0 \<and> \<not> truthy (spi (scenario_record ft))
   \<and> fetch_time (scenario_record ft) = ft"
  by (simp add: scenario_state_def scenario_record_def eval_normalize)

lemma coerce_squawk_bad:
  "length (py_strip s) \<noteq> 4 \<Longrightarrow> coerce_squawk (JStr s) = Some JNull"
  by (simp add: coerce_squawk_def)

lemma coerce_squawk_null: "coerce_squawk JNull = Some JNull"
  by (simp add: coerce_squawk_def)

lemma extract_fields_update:
  assumes "17 \<le> length xs"
  shows "extract_fields pf (JList (xs[14 := v])) ft
           = map_option (\<lambda>r. r\<lparr>squawk := v\<rparr>) (extract_fields pf (JList xs) ft)"
    and "extract_fields pf (JList (xs[16 := v])) ft
           = map_option (\<lambda>r. r\<lparr>position_source := v\<rparr>) (extract_fields pf (JList xs) ft)"
proof -
  have ne: "xs \<noteq> []" and len: "\<And>i. i < 17 \<Longrightarrow> i < length xs"
    using assms by auto
  show "extract_fields pf (JList (xs[14 := v])) ft
          = map_option (\<lambda>r. r\<lparr>squawk := v\<rparr>) (extract_fields pf (JList xs) ft)"
    by (simp add: extract_fields_def ne len split: Option.bind_split)
  show "extract_fields pf (JList (xs[16 := v])) ft
          = map_option (\<lambda>r. r\<lparr>position_source := v\<rparr>) (extract_fields pf (JList xs) ft)"
    by (simp add: extract_fields_def ne len split: Option.bind_split)
qed

lemma validate_squawk:
  "coerce_squawk (squawk r) = Some JNull \<Longrightarrow> validate r = validate (r\<lparr>squawk := JNull\<rparr>)"
  by (simp add: validate_def coerce_squawk_null cong: if_cong)

lemma validate_position_source:
  "validate (r\<lparr>position_source := v\<rparr>) =
     (case validate r of
        Some (Accepted r') \<Rightarrow> Some (Accepted (r'\<lparr>position_source := v\<rparr>))
      | w \<Rightarrow> w)"
  by (simp add: validate_def cong: if_cong split: Option.bind_split)

lemma validate_Accepted:
  "validate r = Some (Accepted r') \<Longrightarrow>
     \<exists>sq. coerce_squawk (squawk r) = Some sq \<and> r' = r\<lparr>squawk := sq\<rparr>"
  by (auto simp: validate_def split: Option.bind_splits if_splits)

lemma normalize_list:
  "normalize pf (JList xs) ft =
     (if 17 \<le> length xs then (case extract_fields pf (JList xs) ft of None \<Rightarrow> Skipped
        | Some r \<Rightarrow> (case validate r of None \<Rightarrow> Skipped | Some v \<Rightarrow> v)) else Dropped)"
  by (simp add: normalize_cases)

text \<open>
  Claim C7. When the squawk (field 14) of an observation is a string whose trimmed form
  has a length other than 4, the loop body does with the observation exactly what it does
  with the same observation without a squawk, so the squawk is never the reason of a
  rejection; and if a record is produced, its squawk is absent.
\<close>

theorem bad_squawk_coerced:
  assumes "17 \<le> length xs" and "xs ! 14 = JStr s" and "length (py_strip s) \<noteq> 4"
  shows "normalize pf (JList xs) ft = normalize pf (JList (xs[14 := JNull])) ft
       \<and> (\<forall>r. normalize pf (JList xs) ft = Accepted r \<longrightarrow> squawk r = JNull)"
proof (cases "extract_fields pf (JList xs) ft")
  case None
  then show ?thesis
    using assms(1) by (simp add: normalize_list extract_fields_update)
next
  case (Some r0)
  have "getitem (JList xs) 14 = Some (squawk r0)"
    using extract_fields_Some(5) [OF Some] .
  then have "squawk r0 = JStr s"
    using assms(1,2) by simp
  then have sq: "coerce_squawk (squawk r0) = Some JNull"
    using assms(3) by (simp add: coerce_squawk_bad)
  have same: "validate r0 = validate (r0\<lparr>squawk := JNull\<rparr>)"
    using sq by (rule validate_squawk)
  have eq: "normalize pf (JList xs) ft = normalize pf (JList (xs[14 := JNull])) ft"
    using assms(1) Some same by (simp add: normalize_list extract_fields_update)
  have "squawk r = JNull" if "normalize pf (JList xs) ft = Accepted r" for r
  proof -
    have "validate r0 = Some (Accepted r)"
      using that assms(1) Some by (simp add: normalize_list split: option.splits)
    then show ?thesis
      using validate_Accepted sq by fastforce
  qed
  then show ?thesis using eq by blast
qed

theorem bad_squawk_coerced_witness:
  "17 \<le> length (scenario_state[14 := JStr (str ''12'' @ [160, 160])])
   \<and> scenario_state[14 := JStr (str ''12'' @ [160, 160])] ! 14 = JStr (str ''12'' @ [160, 160])
   \<and> py_strip (str ''12'' @ [160, 160]) = str ''12''
   \<and> length (py_strip (str ''12'' @ [160, 160])) \<noteq> 4
   \<and> normalize sample_platform (JList (scenario_state[14 := JStr (str ''12'' @ [160, 160])]))
        ''T''
        = Accepted ((scenario_record ''T'')\<lparr>squawk := JNull\<rparr>)
   \<and> normalize sample_platform (JList (scenario_state[14 := JStr (str ''12'' @ [160, 160])]))
        ''T''
        = normalize sample_platform
            (JList ((scenario_state[14 := JStr (str ''12'' @ [160, 160])])[14 := JNull]))
            ''T''
   \<and> squawk ((scenario_record ''T'')\<lparr>squawk := JNull\<rparr>) = JNull"
  using bad_squawk_coerced [where xs = "scenario_state[14 := JStr (str ''12'' @ [160, 160])]"
      and s = "str ''12'' @ [160, 160]" and pf = sample_platform and ft = "''T''"]
  by (simp add: scenario_state_def scenario_record_def eval_normalize)

text \<open>
  The squawk is kept when its trimmed form has four characters, here with a no-break
  space (U+00A0) after it.
\<close>

lemma padded_squawk_kept:
  "normalize pf (JList (scenario_state[14 := JStr (str ''1200'' @ [160])])) ft
     = Accepted (scenario_record ft)"
  by (simp add: scenario_state_def scenario_record_def eval_normalize)

text \<open>
  A squawk that is neither absent nor a string has no \<^verbatim>\<open>strip\<close>: the exception is
  caught and the observation is skipped.
\<close>

lemma other_squawk_skipped:
  assumes "17 \<le> length xs" and "xs ! 14 \<noteq> JNull" and "\<forall>s. xs ! 14 \<noteq> JStr s"
  shows "normalize pf (JList xs) ft = Skipped"
proof (cases "extract_fields pf (JList xs) ft")
  case None
  then show ?thesis using assms(1) by (simp add: normalize_list)
next
  case (Some r)
  have "getitem (JList xs) 14 = Some (squawk r)"
    using extract_fields_Some(5) [OF Some] .
  then have sq: "squawk r = xs ! 14" using assms(1) by simp
  have "coerce_squawk (squawk r) = None"
    using assms(2,3) sq by (cases "xs ! 14") (simp_all add: coerce_squawk_def)
  then have "validate r = None \<or> validate r = Some Skipped"
    using validate_Accepted validate_verdict by (cases "validate r") fastforce+
  then show ?thesis using assms(1) Some by (auto simp: normalize_list)
qed

lemma position_source_passes:
  "normalize pf (JList (xs[16 := v])) ft =
     (case normalize pf (JList xs) ft of
        Accepted r \<Rightarrow> Accepted (r\<lparr>position_source := v\<rparr>)
      | w \<Rightarrow> w)"
proof (cases "17 \<le> length xs")
  case False
  then show ?thesis by (simp add: normalize_list)
next
  case True
  then show ?thesis
    by (simp add: normalize_list extract_fields_update validate_position_source
        split: option.splits verdict.splits)
qed

section \<open>Properties of the store and the sink\<close>

lemma current_pending [simp]: "current (c\<lparr>pending := Some t\<rparr>) = t"
  by (simp add: current_def)

lemma executemany_durable:
  "executemany pf stmt flt i recs c = (c', e) \<Longrightarrow> durable c' = durable c"
proof (induction recs arbitrary: i c)
  case Nil
  then show ?case by simp
next
  case (Cons r recs)
  then show ?case
    by (fastforce split: if_splits sum.splits)
qed

lemma executemany_append:
  "executemany pf stmt flt i (xs @ ys) c =
     (case executemany pf stmt flt i xs c of
        (c1, None) \<Rightarrow> executemany pf stmt flt (i + length xs) ys c1
      | (c1, Some e) \<Rightarrow> (c1, Some e))"
  by (induction xs arbitrary: i c) (auto split: sum.splits)

lemma apply_batch_cases:
  assumes "apply_batch pf stmt flt records skipped c = (out, t')"
  shows "(out = Written (length records) skipped \<and> records \<noteq> [] \<and> flt \<noteq> CommitFails
          \<and> (\<exists>c'. executemany pf stmt flt 0 records c = (c', None) \<and> t' = current c'))
       \<or> (out \<in> {NoValidRecords, DatabaseError, Uncaught} \<and> t' = durable c)"
proof (cases "records = []")
  case True
  then show ?thesis using assms by (auto simp: apply_batch_def close_def)
next
  case False
  obtain c1 e where ex: "executemany pf stmt flt 0 records c = (c1, e)"
    by (cases "executemany pf stmt flt 0 records c")
  have d: "durable c1 = durable c"
    using executemany_durable [OF ex] .
  show ?thesis
    using assms False ex d
    by (auto simp: apply_batch_def close_def commit_def current_def
        split: option.splits db_exn.splits if_splits)
qed

lemma stmt_dom:
  assumes "stmt = insert_or_ignore \<or> stmt = upsert" and "stmt t row = Inr t'"
  shows "dom t \<subseteq> dom t'" and "constraints_ok row \<Longrightarrow> pkey row \<in> dom t'"
  using assms
  by (auto simp: insert_or_ignore_def upsert_def Let_def split: if_splits option.splits)

lemma executemany_dom:
  assumes "stmt = insert_or_ignore \<or> stmt = upsert"
  shows "executemany pf stmt flt i recs c = (c', e) \<Longrightarrow> dom (current c) \<subseteq> dom (current c')"
proof (induction recs arbitrary: i c)
  case Nil
  then show ?case by simp
next
  case (Cons r recs)
  show ?case
  proof (cases "flt = StatementFails i")
    case True
    then show ?thesis using Cons.prems by simp
  next
    case nf: False
    show ?thesis
    proof (cases "bind_row pf r")
      case (Inl a)
      then show ?thesis using Cons.prems nf by simp
    next
      case (Inr row)
      show ?thesis
      proof (cases "stmt (current c) row")
        case (Inl a)
        then show ?thesis using Cons.prems nf Inr by auto
      next
        case rt: (Inr t)
        have "executemany pf stmt flt (i + 1) recs (c\<lparr>pending := Some t\<rparr>) = (c', e)"
          using Cons.prems nf Inr rt by simp
        from Cons.IH [OF this] have "dom t \<subseteq> dom (current c')" by simp
        then show ?thesis using stmt_dom(1) [OF assms rt] by blast
      qed
    qed
  qed
qed

lemma executemany_written:
  assumes "stmt = insert_or_ignore \<or> stmt = upsert"
  shows "executemany pf stmt flt i recs c = (c', None) \<Longrightarrow> r \<in> set recs \<Longrightarrow>
     \<exists>row. bind_row pf r = Inr row \<and> (constraints_ok row \<longrightarrow> pkey row \<in> dom (current c'))"
proof (induction recs arbitrary: i c)
  case Nil
  then show ?case by simp
next
  case (Cons r0 recs)
  from Cons.prems(1) obtain row t where
    b: "bind_row pf r0 = Inr row" and s: "stmt (current c) row = Inr t"
    and rest: "executemany pf stmt flt (i + 1) recs (c\<lparr>pending := Some t\<rparr>) = (c', None)"
    by (auto split: if_splits sum.splits)
  show ?case
  proof (cases "r = r0")
    case True
    have "dom t \<subseteq> dom (current c')"
      using executemany_dom [OF assms rest] by simp
    then show ?thesis
      using True b stmt_dom(2) [OF assms s] by auto
  next
    case False
    then have "r \<in> set recs" using Cons.prems(2) by simp
    from Cons.IH [OF rest this] show ?thesis .
  qed
qed

subsection \<open>Sample rows\<close>

lemma str_no_surrogate [simp]: "\<not> has_surrogate (str s)"
proof -
  have "\<forall>c \<in> set (str s). c < 256"
    by (simp add: str_def)
  then show ?thesis
    by (fastforce simp: has_surrogate_def list_ex_iff)
qed

lemmas eval_row = row_of_def insert_columns_def apply_affinity_def to_double_def str_def

lemma bind_scenario_record:
  "bind_row pf (scenario_record ft) = Inr (scenario_row ft)"
proof -
  have "(\<lambda>c. apply_affinity pf c (row_of
     [SText (str ''ABC123''), SText (str ''UAL123''), SText (str ''United States''),
      SInt 1000, SInt 1005, SReal (Fin (- 120.5)), SReal (Fin 37.5), SInt 10000,
      SInt 0, SReal (Fin 250.0), SReal (Fin 90.0), SInt 0, SNull, SInt 10500,
      SText (str ''1200''), SInt 0, SInt 0, SText (str ft)] c)) = scenario_row ft"
  proof
    fix c
    show "apply_affinity pf c (row_of
     [SText (str ''ABC123''), SText (str ''UAL123''), SText (str ''United States''),
      SInt 1000, SInt 1005, SReal (Fin (- 120.5)), SReal (Fin 37.5), SInt 10000,
      SInt 0, SReal (Fin 250.0), SReal (Fin 90.0), SInt 0, SNull, SInt 10500,
      SText (str ''1200''), SInt 0, SInt 0, SText (str ft)] c) = scenario_row ft c"
      by (cases c) (simp_all add: scenario_row_def eval_row)
  qed
  then show ?thesis
    by (simp add: bind_row_def tuple_of_def scenario_record_def)
qed

lemma bind_refreshed_record:
  "bind_row pf (refreshed_record ft) = Inr (refreshed_row ft)"
proof -
  have "(\<lambda>c. apply_affinity pf c (row_of
     [SText (str ''ABC123''), SText (str ''UAL999''), SText (str ''United States''),
      SInt 1000, SInt 1005, SReal (Fin (- 120.5)), SReal (Fin 37.5), SInt 10000,
      SInt 0, SReal (Fin 260.0), SReal (Fin 90.0), SInt 0, SNull, SInt 10500,
      SText (str ''1200''), SInt 0, SInt 0, SText (str ft)] c)) = refreshed_row ft"
  proof
    fix c
    show "apply_affinity pf c (row_of
     [SText (str ''ABC123''), SText (str ''UAL999''), SText (str ''United States''),
      SInt 1000, SInt 1005, SReal (Fin (- 120.5)), SReal (Fin 37.5), SInt 10000,
      SInt 0, SReal (Fin 260.0), SReal (Fin 90.0), SInt 0, SNull, SInt 10500,
      SText (str ''1200''), SInt 0, SInt 0, SText (str ft)] c) = refreshed_row ft c"
      by (cases c) (simp_all add: refreshed_row_def eval_row)
  qed
  then show ?thesis
    by (simp add: bind_row_def tuple_of_def scenario_record_def refreshed_record_def)
qed

lemma bind_other_record:
  "bind_row pf (other_record ft) = Inr (other_row ft)"
proof -
  have "(\<lambda>c. apply_affinity pf c (row_of
     [SText (str ''DEF456''), SNull, SText (str ''United States''),
      SInt 1000, SInt 1005, SReal (Fin (- 120.5)), SReal (Fin 37.5), SInt 10000,
      SInt 0, SReal (Fin 250.0), SReal (Fin 90.0), SInt 0, SNull, SInt 10500,
      SText (str ''1200''), SInt 0, SInt 0, SText (str ft)] c)) = other_row ft"
  proof
    fix c
    show "apply_affinity pf c (row_of
     [SText (str ''DEF456''), SNull, SText (str ''United States''),
      SInt 1000, SInt 1005, SReal (Fin (- 120.5)), SReal (Fin 37.5), SInt 10000,
      SInt 0, SReal (Fin 250.0), SReal (Fin 90.0), SInt 0, SNull, SInt 10500,
      SText (str ''1200''), SInt 0, SInt 0, SText (str ft)] c) = other_row ft c"
      by (cases c) (simp_all add: other_row_def eval_row)
  qed
  then show ?thesis
    by (simp add: bind_row_def tuple_of_def scenario_record_def other_record_def)
qed

lemma scenario_row_ok: "constraints_ok (scenario_row ft)"
  by (simp add: constraints_ok_def scenario_row_def row_of_def insert_columns_def
      not_null_columns_def check_ok_def sql_between_def sql_in_def)

lemma refreshed_row_ok: "constraints_ok (refreshed_row ft)"
  by (simp add: constraints_ok_def refreshed_row_def row_of_def insert_columns_def
      not_null_columns_def check_ok_def sql_between_def sql_in_def)

lemma other_row_ok: "constraints_ok (other_row ft)"
  by (simp add: constraints_ok_def other_row_def row_of_def insert_columns_def
      not_null_columns_def check_ok_def sql_between_def sql_in_def)

lemma pkey_scenario_row: "pkey (scenario_row ft) = scenario_key"
  by (simp add: pkey_def key_value_def scenario_key_def scenario_row_def row_of_def
      insert_columns_def)

lemma pkey_refreshed_row: "pkey (refreshed_row ft) = scenario_key"
  by (simp add: pkey_def key_value_def scenario_key_def refreshed_row_def row_of_def
      insert_columns_def)

lemma pkey_other_row: "pkey (other_row ft) = other_key"
  by (simp add: pkey_def key_value_def other_key_def other_row_def row_of_def
      insert_columns_def)

lemma other_key_differs: "other_key \<noteq> scenario_key" "scenario_key \<noteq> other_key"
  by (simp_all add: other_key_def scenario_key_def str_def)

lemma update_sample_row:
  "do_update_set (scenario_row ft1) (refreshed_row ft2) = refreshed_row ft2"
proof
  fix col
  show "do_update_set (scenario_row ft1) (refreshed_row ft2) col = refreshed_row ft2 col"
    by (cases col)
       (simp_all add: do_update_set_def update_columns_def scenario_row_def refreshed_row_def
          row_of_def insert_columns_def)
qed

lemma refreshed_row_values:
  "refreshed_row ft Callsign = SText (str ''UAL999'')"
  "refreshed_row ft Velocity = SReal (Fin 260.0)"
  "refreshed_row ft Fetch_time = SText (str ft)"
  "refreshed_row ft Icao24 = SText (str ''ABC123'')"
  "refreshed_row ft Last_contact = SInt 1005"
  by (simp_all add: refreshed_row_def row_of_def insert_columns_def)

lemmas eval_sink = apply_batch_def bind_scenario_record bind_refreshed_record
  bind_other_record scenario_row_ok refreshed_row_ok other_row_ok pkey_scenario_row
  pkey_refreshed_row pkey_other_row other_key_differs one_row_def current_def commit_def
  close_def

subsection \<open>Atomic application\<close>



text \<open>
  The same for the two cycle functions as a whole: a call that does not end with the
  commit of its batch leaves the file as it found it.
\<close>

lemma apply_batch_unchanged:
  assumes "apply_batch pf stmt flt records skipped c = (out, t')"
  shows "(\<exists>n s. out = Written n s) \<or> t' = durable c"
  using apply_batch_cases [OF assms] by auto

lemma load_states_unchanged:
  assumes "load_states pf stmt flt states ft c = (out, t')"
  shows "(\<exists>n s. out = Written n s) \<or> t' = durable c"
proof (cases "py_iter states")
  case None
  then show ?thesis using assms by (simp add: load_states_def close_def)
next
  case (Some sts)
  show ?thesis
  proof (cases "process_states pf sts ft [] 0")
    case None
    then show ?thesis using assms Some by (simp add: load_states_def close_def)
  next
    case p: (Some a)
    obtain records skipped where "a = (records, skipped)" by (cases a)
    then have "apply_batch pf stmt flt records skipped c = (out, t')"
      using assms Some p by (simp add: load_states_def)
    then show ?thesis by (rule apply_batch_unchanged)
  qed
qed

lemma fetch_and_append_data_unchanged:
  assumes "fetch_and_append_data pf req ft flt t = (out, t')"
  shows "(\<exists>n s. out = Written n s) \<or> t' = t"
proof (cases "flt = ConnectFails")
  case True
  then show ?thesis using assms by (simp add: fetch_and_append_data_def connect_def)
next
  case False
  let ?c = "\<lparr>durable = t, pending = None\<rparr>"
  show ?thesis
  proof (cases req)
    case (Response data)
    show ?thesis
    proof (cases "get_states data")
      case None
      then show ?thesis
        using assms False Response
        by (simp add: fetch_and_append_data_def connect_def close_def)
    next
      case (Some states)
      show ?thesis
      proof (cases "truthy states")
        case True
        then have "load_states pf insert_or_ignore flt states ft ?c = (out, t')"
          using assms False Response Some by (simp add: fetch_and_append_data_def connect_def)
        from load_states_unchanged [OF this] show ?thesis by simp
      next
        case nt: False
        then show ?thesis
          using assms False Response Some
          by (simp add: fetch_and_append_data_def connect_def close_def)
      qed
    qed
  next
    case RequestFailed
    then show ?thesis
      using assms False by (simp add: fetch_and_append_data_def connect_def close_def)
  next
    case OtherFailure
    then show ?thesis
      using assms False by (simp add: fetch_and_append_data_def connect_def close_def)
  qed
qed

lemma upsert_data_unchanged:
  assumes "upsert_data pf data ft flt t = (out, t')"
  shows "(\<exists>n s. out = Written n s) \<or> t' = t"
proof (cases "truthy data \<and> (\<exists>states. get_states data = Some states \<and> truthy states)
    \<and> flt \<noteq> ConnectFails")
  case True
  then obtain states where "get_states data = Some states" "truthy states" by blast
  then have "load_states pf upsert flt states ft \<lparr>durable = t, pending = None\<rparr> = (out, t')"
    using assms True by (simp add: upsert_data_def connect_def)
  from load_states_unchanged [OF this] show ?thesis by simp
next
  case False
  then show ?thesis
    using assms
    by (auto simp: upsert_data_def connect_def split: option.splits if_splits)
qed

lemma fetch_and_upsert_data_unchanged:
  assumes "fetch_and_upsert_data pf net ft flt t = (out, t')"
  shows "(\<exists>n s. out = Written n s) \<or> t' = t"
proof (cases "fst (fetch_data_with_retries net)")
  case (Returned data)
  then have "upsert_data pf data ft flt t = (out, t')"
    using assms by (simp add: fetch_and_upsert_data_def)
  then show ?thesis by (rule upsert_data_unchanged)
next
  case Propagated
  then show ?thesis using assms by (simp add: fetch_and_upsert_data_def)
qed

subsection \<open>Insert or ignore\<close>

lemma ignore_noop:
  "\<not> constraints_ok row \<or> pkey row \<in> dom t \<Longrightarrow> insert_or_ignore t row = Inr t"
  by (auto simp: insert_or_ignore_def)

lemma ignore_le:
  "insert_or_ignore t row = Inr t' \<Longrightarrow> t \<subseteq>\<^sub>m t'"
  by (auto simp: insert_or_ignore_def map_le_def split: if_splits option.splits)

lemma executemany_ignore_le:
  "executemany pf insert_or_ignore flt i recs c = (c', e) \<Longrightarrow> current c \<subseteq>\<^sub>m current c'"
proof (induction recs arbitrary: i c)
  case Nil
  then show ?case by simp
next
  case (Cons r recs)
  show ?case
  proof (cases "flt = StatementFails i")
    case True
    then show ?thesis using Cons.prems by simp
  next
    case nf: False
    show ?thesis
    proof (cases "bind_row pf r")
      case (Inl a)
      then show ?thesis using Cons.prems nf by simp
    next
      case (Inr row)
      show ?thesis
      proof (cases "insert_or_ignore (current c) row")
        case (Inl a)
        then show ?thesis using Cons.prems nf Inr by auto
      next
        case rt: (Inr t)
        have "executemany pf insert_or_ignore flt (i + 1) recs (c\<lparr>pending := Some t\<rparr>) = (c', e)"
          using Cons.prems nf Inr rt by simp
        from Cons.IH [OF this] have "t \<subseteq>\<^sub>m current c'" by simp
        then show ?thesis using ignore_le [OF rt] map_le_trans by blast
      qed
    qed
  qed
qed

lemma executemany_ignore_again:
  assumes "\<forall>r \<in> set recs. \<exists>row. bind_row pf r = Inr row
             \<and> (constraints_ok row \<longrightarrow> pkey row \<in> dom (current c))"
      and "executemany pf insert_or_ignore flt i recs c = (c', e)"
  shows "current c' = current c"
  using assms
proof (induction recs arbitrary: i c)
  case Nil
  then show ?case by simp
next
  case (Cons r recs)
  obtain row where b: "bind_row pf r = Inr row"
    and k: "constraints_ok row \<longrightarrow> pkey row \<in> dom (current c)"
    using Cons.prems(1) by auto
  have s: "insert_or_ignore (current c) row = Inr (current c)"
    using k by (intro ignore_noop) blast
  show ?case
  proof (cases "flt = StatementFails i")
    case True
    then show ?thesis using Cons.prems(2) by simp
  next
    case False
    let ?c = "c\<lparr>pending := Some (current c)\<rparr>"
    have rest: "executemany pf insert_or_ignore flt (i + 1) recs ?c = (c', e)"
      using Cons.prems(2) False b s by simp
    have "\<forall>r \<in> set recs. \<exists>row. bind_row pf r = Inr row
             \<and> (constraints_ok row \<longrightarrow> pkey row \<in> dom (current ?c))"
      using Cons.prems(1) by simp
    from Cons.IH [OF this rest] show ?thesis by simp
  qed
qed

text \<open>
  Claim C3. Under \<^verbatim>\<open>INSERT OR IGNORE\<close>, once a batch has been applied and committed,
  applying the same batch again leaves the file as the first application left it,
  whatever happens during the second; and the first application keeps every row that
  was stored before it as it was.
\<close>

theorem insert_or_ignore_idempotent:
  assumes "apply_batch pf insert_or_ignore flt1 records k1 \<lparr>durable = t, pending = None\<rparr>
             = (Written n s, t1)"
  shows "snd (apply_batch pf insert_or_ignore flt2 records k2 \<lparr>durable = t1, pending = None\<rparr>) = t1
       \<and> t \<subseteq>\<^sub>m t1"
proof -
  let ?c = "\<lparr>durable = t, pending = None\<rparr>"
  let ?c1 = "\<lparr>durable = t1, pending = None\<rparr>"
  from apply_batch_cases [OF assms] obtain c' where
    ex: "executemany pf insert_or_ignore flt1 0 records ?c = (c', None)" and t1: "t1 = current c'"
    by auto
  have le: "t \<subseteq>\<^sub>m t1"
    using executemany_ignore_le [OF ex] t1 by (simp add: current_def)
  have all: "\<forall>r \<in> set records. \<exists>row. bind_row pf r = Inr row
             \<and> (constraints_ok row \<longrightarrow> pkey row \<in> dom (current ?c1))"
    using executemany_written [OF _ ex] t1 by (simp add: current_def)
  obtain c2 e where ex2: "executemany pf insert_or_ignore flt2 0 records ?c1 = (c2, e)"
    by (cases "executemany pf insert_or_ignore flt2 0 records ?c1")
  have cur: "current c2 = t1"
    using executemany_ignore_again [OF all ex2] by (simp add: current_def)
  have dur: "durable c2 = t1"
    using executemany_durable [OF ex2] by simp
  have "snd (apply_batch pf insert_or_ignore flt2 records k2 ?c1) = t1"
    using ex2 cur dur
    by (auto simp: apply_batch_def close_def commit_def split: option.splits db_exn.splits)
  then show ?thesis using le by simp
qed

theorem insert_or_ignore_idempotent_witness:
  "apply_batch sample_platform insert_or_ignore NoFault
      [refreshed_record ''T1'', other_record ''T1''] 0
      \<lparr>durable = one_row (scenario_row ''T0''), pending = None\<rparr>
     = (Written 2 0, (one_row (scenario_row ''T0''))(other_key \<mapsto> other_row ''T1''))
   \<and> snd (apply_batch sample_platform insert_or_ignore NoFault
        [refreshed_record ''T1'', other_record ''T1''] 0
        \<lparr>durable = (one_row (scenario_row ''T0''))(other_key \<mapsto> other_row ''T1''),
          pending = None\<rparr>)
     = (one_row (scenario_row ''T0''))(other_key \<mapsto> other_row ''T1'')
   \<and> one_row (scenario_row ''T0'')
        \<subseteq>\<^sub>m (one_row (scenario_row ''T0''))(other_key \<mapsto> other_row ''T1'')
   \<and> ((one_row (scenario_row ''T0''))(other_key \<mapsto> other_row ''T1'')) scenario_key
        = Some (scenario_row ''T0'')"
  using insert_or_ignore_idempotent [where pf = sample_platform and ?flt1.0 = NoFault
      and records = "[refreshed_record ''T1'', other_record ''T1'']"
      and ?k1.0 = 0 and t = "one_row (scenario_row ''T0'')" and n = 2 and s = 0
      and ?t1.0 = "(one_row (scenario_row ''T0''))(other_key \<mapsto> other_row ''T1'')"
      and ?flt2.0 = NoFault and ?k2.0 = 0]
  by (simp add: eval_sink insert_or_ignore_def)

subsection \<open>Upsert\<close>

lemma update_columns_all: "c \<in> set update_columns \<longleftrightarrow> c \<noteq> Icao24 \<and> c \<noteq> Last_contact"
  by (cases c) (simp_all add: update_columns_def)

lemma upsert_other_key:
  "upsert t row = Inr t' \<Longrightarrow> k \<noteq> pkey row \<Longrightarrow> t' k = t k"
  by (auto simp: upsert_def Let_def split: if_splits option.splits)

lemma upsert_at_key:
  assumes "upsert t row = Inr t'"
  shows "\<exists>new. t' (pkey row) = Some new
           \<and> (\<forall>col. col \<noteq> Icao24 \<and> col \<noteq> Last_contact \<longrightarrow> new col = row col)"
  using assms
  by (auto simp: upsert_def Let_def do_update_set_def update_columns_all
      split: if_splits option.splits)

lemma upsert_keeps_key_columns:
  assumes "upsert t row = Inr t'" and "t k = Some old"
  shows "\<exists>new. t' k = Some new \<and> new Icao24 = old Icao24 \<and> new Last_contact = old Last_contact"
  using assms
  by (cases "k = pkey row")
     (auto simp: upsert_def Let_def do_update_set_def update_columns_all
      split: if_splits option.splits)

lemma executemany_upsert_keeps:
  "executemany pf upsert flt i recs c = (c', e) \<Longrightarrow> current c k = Some old \<Longrightarrow>
     \<exists>new. current c' k = Some new \<and> new Icao24 = old Icao24 \<and> new Last_contact = old Last_contact"
proof (induction recs arbitrary: i c old)
  case Nil
  then show ?case by simp
next
  case (Cons r recs)
  show ?case
  proof (cases "flt = StatementFails i")
    case True
    then show ?thesis using Cons.prems by simp
  next
    case nf: False
    show ?thesis
    proof (cases "bind_row pf r")
      case (Inl a)
      then show ?thesis using Cons.prems nf by simp
    next
      case (Inr row)
      show ?thesis
      proof (cases "upsert (current c) row")
        case (Inl a)
        then show ?thesis using Cons.prems nf Inr by auto
      next
        case rt: (Inr t)
        have rest: "executemany pf upsert flt (i + 1) recs (c\<lparr>pending := Some t\<rparr>) = (c', e)"
          using Cons.prems nf Inr rt by simp
        obtain mid where m: "t k = Some mid" "mid Icao24 = old Icao24"
          "mid Last_contact = old Last_contact"
          using upsert_keeps_key_columns [OF rt Cons.prems(2)] by blast
        have "current (c\<lparr>pending := Some t\<rparr>) k = Some mid" using m(1) by simp
        from Cons.IH [OF rest this] show ?thesis using m(2,3) by auto
      qed
    qed
  qed
qed

lemma executemany_upsert_other_keys:
  assumes "\<forall>r \<in> set recs. \<forall>row. bind_row pf r = Inr row \<longrightarrow> pkey row \<noteq> k"
      and "executemany pf upsert flt i recs c = (c', e)"
  shows "current c' k = current c k"
  using assms
proof (induction recs arbitrary: i c)
  case Nil
  then show ?case by simp
next
  case (Cons r recs)
  show ?case
  proof (cases "flt = StatementFails i")
    case True
    then show ?thesis using Cons.prems(2) by simp
  next
    case nf: False
    show ?thesis
    proof (cases "bind_row pf r")
      case (Inl a)
      then show ?thesis using Cons.prems(2) nf by simp
    next
      case (Inr row)
      have kr: "k \<noteq> pkey row" using Cons.prems(1) Inr by auto
      show ?thesis
      proof (cases "upsert (current c) row")
        case (Inl a)
        then show ?thesis using Cons.prems(2) nf Inr by auto
      next
        case rt: (Inr t)
        have rest: "executemany pf upsert flt (i + 1) recs (c\<lparr>pending := Some t\<rparr>) = (c', e)"
          using Cons.prems(2) nf Inr rt by simp
        have "\<forall>r \<in> set recs. \<forall>row. bind_row pf r = Inr row \<longrightarrow> pkey row \<noteq> k"
          using Cons.prems(1) by simp
        from Cons.IH [OF this rest] have "current c' k = t k" by simp
        then show ?thesis using upsert_other_key [OF rt kr] by simp
      qed
    qed
  qed
qed

text \<open>
  Claim C2. Under the upsert statement, when a committed batch holds a record whose key
  was already in the store, and no later record of the batch has the same key, the row
  stored under that key afterwards has, in every column other than the two key columns
  (call sign, origin country, time position, longitude, latitude, barometric altitude,
  on ground, velocity, true track, vertical rate, sensors, geometric altitude, squawk,
  spi, position source and fetch time), the value that the statement stores for the new
  record; the key columns are those of the row stored before.
\<close>

theorem upsert_overwrites:
  assumes "apply_batch pf upsert flt (pre @ r # post) skipped \<lparr>durable = t, pending = None\<rparr>
             = (Written n s, t')"
      and "bind_row pf r = Inr row"
      and "t (pkey row) = Some old"
      and "\<forall>r' \<in> set post. \<forall>row'. bind_row pf r' = Inr row' \<longrightarrow> pkey row' \<noteq> pkey row"
  shows "\<exists>new. t' (pkey row) = Some new
           \<and> (\<forall>col. col \<noteq> Icao24 \<and> col \<noteq> Last_contact \<longrightarrow> new col = row col)
           \<and> new Icao24 = old Icao24 \<and> new Last_contact = old Last_contact"
proof -
  let ?c = "\<lparr>durable = t, pending = None\<rparr>"
  from apply_batch_cases [OF assms(1)] obtain c' where
    ex: "executemany pf upsert flt 0 (pre @ r # post) ?c = (c', None)" and t': "t' = current c'"
    by auto
  obtain c1 where pre: "executemany pf upsert flt 0 pre ?c = (c1, None)"
    and rest: "executemany pf upsert flt (0 + length pre) (r # post) c1 = (c', None)"
    using ex by (auto simp: executemany_append split: prod.splits option.splits)
  obtain t2 where up: "upsert (current c1) row = Inr t2"
    and post: "executemany pf upsert flt (0 + length pre + 1) post (c1\<lparr>pending := Some t2\<rparr>) = (c', None)"
    using rest assms(2) by (auto split: if_splits sum.splits)
  have "current ?c (pkey row) = Some old"
    using assms(3) by (simp add: current_def)
  from executemany_upsert_keeps [OF pre this] obtain mid where
    mid: "current c1 (pkey row) = Some mid" "mid Icao24 = old Icao24"
      "mid Last_contact = old Last_contact"
    by blast
  obtain new where new: "t2 (pkey row) = Some new"
    "\<forall>col. col \<noteq> Icao24 \<and> col \<noteq> Last_contact \<longrightarrow> new col = row col"
    using upsert_at_key [OF up] by blast
  obtain new' where "t2 (pkey row) = Some new'" "new' Icao24 = mid Icao24"
    "new' Last_contact = mid Last_contact"
    using upsert_keeps_key_columns [OF up mid(1)] by blast
  then have keys: "new Icao24 = old Icao24" "new Last_contact = old Last_contact"
    using new(1) mid(2,3) by auto
  have "current c' (pkey row) = current (c1\<lparr>pending := Some t2\<rparr>) (pkey row)"
    using executemany_upsert_other_keys [OF assms(4) post] .
  then have "t' (pkey row) = Some new"
    using t' new(1) by simp
  then show ?thesis using new(2) keys by blast
qed

theorem upsert_overwrites_witness:
  "apply_batch sample_platform upsert NoFault
      ([] @ refreshed_record ''T2'' # [other_record ''T2'']) 0
      \<lparr>durable = one_row (scenario_row ''T1''), pending = None\<rparr>
     = (Written 2 0, (one_row (refreshed_row ''T2''))(other_key \<mapsto> other_row ''T2''))
   \<and> bind_row sample_platform (refreshed_record ''T2'') = Inr (refreshed_row ''T2'')
   \<and> one_row (scenario_row ''T1'') (pkey (refreshed_row ''T2''))
        = Some (scenario_row ''T1'')
   \<and> bind_row sample_platform (other_record ''T2'') = Inr (other_row ''T2'')
   \<and> pkey (other_row ''T2'') \<noteq> pkey (refreshed_row ''T2'')
   \<and> (\<exists>new. ((one_row (refreshed_row ''T2''))(other_key \<mapsto> other_row ''T2''))
              (pkey (refreshed_row ''T2'')) = Some new
         \<and> new Callsign = SText (str ''UAL999'') \<and> new Velocity = SReal (Fin 260.0)
         \<and> new Fetch_time = SText (str ''T2'')
         \<and> new Icao24 = SText (str ''ABC123'') \<and> new Last_contact = SInt 1005)"
  using upsert_overwrites [where pf = sample_platform and flt = NoFault and pre = "[]"
      and r = "refreshed_record ''T2''" and post = "[other_record ''T2'']"
      and skipped = 0 and t = "one_row (scenario_row ''T1'')" and n = 2 and s = 0
      and t' = "(one_row (refreshed_row ''T2''))(other_key \<mapsto> other_row ''T2'')"
      and row = "refreshed_row ''T2''" and old = "scenario_row ''T1''"]
  by (simp add: eval_sink upsert_def Let_def update_sample_row refreshed_row_values)

text \<open>
  The key is compared as the table stores it: an address sent as the number 123 is kept
  as the text \<open>123\<close> in the \<^verbatim>\<open>TEXT\<close> column, so it has the key of the address sent
  as that text. Two such records in one batch are records of one key, and the theorem
  above speaks of the later one.
\<close>

lemma numeric_address_key:
  assumes "bind_row pf (numeric_address_record ft) = Inr row"
      and "bind_row pf (text_address_record ft') = Inr row'"
  shows "pkey row = pkey row'"
  using assms
  by (auto simp: bind_row_def tuple_of_def numeric_address_record_def text_address_record_def
      scenario_record_def pkey_def key_value_def eval_row int_text_def digits.simps
      split: sum.splits if_splits)

subsection \<open>The position source\<close>

lemma bind_params_length:
  "bind_params vs = Inr xs \<Longrightarrow> length xs = length vs"
  by (induction vs arbitrary: xs) (auto split: sum.splits)

lemma bind_params_nth:
  "bind_params vs = Inr xs \<Longrightarrow> i < length vs \<Longrightarrow> bind_param (vs ! i) = Inr (xs ! i)"
proof (induction vs arbitrary: xs i)
  case Nil
  then show ?case by simp
next
  case (Cons v vs)
  then show ?case
    by (cases i) (auto split: sum.splits)
qed

lemma row_of_position_source:
  "length xs = 18 \<Longrightarrow> row_of xs Position_source = xs ! 16"
proof -
  assume "length xs = 18"
  then obtain x0 x1 x2 x3 x4 x5 x6 x7 x8 x9 x10 x11 x12 x13 x14 x15 x16 x17 where
    "xs = [x0, x1, x2, x3, x4, x5, x6, x7, x8, x9, x10, x11, x12, x13, x14, x15, x16, x17]"
    by (auto simp: length_Suc_conv eval_nat_numeral)
  then show ?thesis
    by (simp add: row_of_def insert_columns_def)
qed

lemma bind_row_position_source:
  assumes "bind_row pf r = Inr row"
  shows "\<exists>v. bind_param (position_source r) = Inr v
           \<and> row Position_source = numeric_affinity pf v"
proof -
  obtain xs where xs: "bind_params (tuple_of r) = Inr xs"
    and row: "row = (\<lambda>c. apply_affinity pf c (row_of xs c))"
    using assms by (auto simp: bind_row_def split: sum.splits)
  have len: "length xs = 18"
    using bind_params_length [OF xs] by (simp add: tuple_of_def)
  have "bind_param (tuple_of r ! 16) = Inr (xs ! 16)"
    using bind_params_nth [OF xs, of 16] by (simp add: tuple_of_def)
  then have "bind_param (position_source r) = Inr (xs ! 16)"
    by (simp add: tuple_of_def)
  moreover have "row Position_source = numeric_affinity pf (xs ! 16)"
    using row row_of_position_source [OF len] by (simp add: apply_affinity_def)
  ultimately show ?thesis by blast
qed

lemma bad_position_source_row:
  assumes "bind_row pf r = Inr row" and "position_source r = JInt n" and "n \<notin> {0, 1, 2}"
  shows "\<not> constraints_ok row"
proof -
  obtain v where "bind_param (JInt n) = Inr v" "row Position_source = numeric_affinity pf v"
    using bind_row_position_source [OF assms(1)] assms(2) by auto
  then have "row Position_source = SInt n"
    by (auto split: if_splits)
  then have "sql_in (row Position_source) [0, 1, 2] = Some False"
    using assms(3) by (simp add: sql_in_def)
  then show ?thesis
    by (simp add: constraints_ok_def check_ok_def)
qed

lemma executemany_upsert_bad_row:
  assumes "r \<in> set recs" and "\<forall>row. bind_row pf r = Inr row \<longrightarrow> \<not> constraints_ok row"
  shows "executemany pf upsert flt i recs c = (c', e) \<Longrightarrow> e \<noteq> None"
  using assms(1)
proof (induction recs arbitrary: i c)
  case Nil
  then show ?case by simp
next
  case (Cons r0 recs)
  show ?case
  proof (cases "r = r0")
    case True
    then show ?thesis
      using Cons.prems(1) assms(2)
      by (auto simp: upsert_def split: if_splits sum.splits)
  next
    case False
    then have "r \<in> set recs" using Cons.prems(2) by simp
    then show ?thesis
      using Cons.IH Cons.prems(1) by (auto split: if_splits sum.splits)
  qed
qed

lemma apply_batch_upsert_bad_row:
  assumes "r \<in> set records" and "\<forall>row. bind_row pf r = Inr row \<longrightarrow> \<not> constraints_ok row"
  shows "fst (apply_batch pf upsert flt records skipped c) \<in> {DatabaseError, Uncaught}
       \<and> snd (apply_batch pf upsert flt records skipped c) = durable c"
proof -
  obtain out t' where a: "apply_batch pf upsert flt records skipped c = (out, t')"
    by (cases "apply_batch pf upsert flt records skipped c")
  have ne: "records \<noteq> []" using assms(1) by auto
  have "\<not> (\<exists>c'. executemany pf upsert flt 0 records c = (c', None))"
    using executemany_upsert_bad_row [OF assms] by blast
  then have "out \<in> {NoValidRecords, DatabaseError, Uncaught} \<and> t' = durable c"
    using apply_batch_cases [OF a] by blast
  moreover have "out \<noteq> NoValidRecords"
    using a ne by (auto simp: apply_batch_def split: prod.splits option.splits db_exn.splits)
  ultimately show ?thesis using a by simp
qed

lemma process_states_records:
  "process_states pf sts ft recs k = Some (records, skipped) \<Longrightarrow>
     set recs \<subseteq> set records \<and> (\<forall>s \<in> set sts. \<forall>r. normalize pf s ft = Accepted r \<longrightarrow> r \<in> set records)"
proof (induction sts arbitrary: recs k)
  case Nil
  then show ?case by simp
next
  case (Cons s sts)
  show ?case
  proof (cases "normalize pf s ft")
    case (Accepted r)
    then have "process_states pf sts ft (recs @ [r]) k = Some (records, skipped)"
      using Cons.prems by simp
    from Cons.IH [OF this] show ?thesis using Accepted by auto
  next
    case Skipped
    then have "process_states pf sts ft recs (k + 1) = Some (records, skipped)"
      using Cons.prems by simp
    from Cons.IH [OF this] show ?thesis using Skipped by auto
  next
    case Dropped
    then have "process_states pf sts ft recs k = Some (records, skipped)"
      using Cons.prems by simp
    from Cons.IH [OF this] show ?thesis using Dropped by auto
  next
    case Raised
    then show ?thesis using Cons.prems by simp
  qed
qed

text \<open>
  Claim C10. The position source (field 16) is not validated by the loop body: an
  observation that is accepted stays accepted, with the same record but for that field,
  whatever value the field is given. When the value is an integer outside \<open>{0, 1, 2}\<close>
  and the observation is among the states of an upsert cycle, the record reaches the
  statement, the \<^verbatim>\<open>CHECK\<close> of the table rejects it, and the whole batch is lost: the
  cycle ends with an error and the file is as before.
\<close>

theorem position_source_unchecked:
  assumes "normalize pf (JList xs) ft = Accepted r"
  shows "normalize pf (JList (xs[16 := v])) ft = Accepted (r\<lparr>position_source := v\<rparr>)
       \<and> (\<forall>n states flt t.
            v = JInt n \<and> n \<notin> {0, 1, 2} \<and> JList (xs[16 := v]) \<in> set states \<longrightarrow>
              fst (load_states pf upsert flt (JList states) ft \<lparr>durable = t, pending = None\<rparr>)
                \<in> {DatabaseError, Uncaught}
            \<and> snd (load_states pf upsert flt (JList states) ft \<lparr>durable = t, pending = None\<rparr>) = t)"
proof -
  let ?r = "r\<lparr>position_source := v\<rparr>"
  have acc: "normalize pf (JList (xs[16 := v])) ft = Accepted ?r"
    using assms by (simp add: position_source_passes)
  have "fst (load_states pf upsert flt (JList states) ft \<lparr>durable = t, pending = None\<rparr>)
                \<in> {DatabaseError, Uncaught}
            \<and> snd (load_states pf upsert flt (JList states) ft \<lparr>durable = t, pending = None\<rparr>) = t"
    if v: "v = JInt n" and n: "n \<notin> {0, 1, 2}" and mem: "JList (xs[16 := v]) \<in> set states"
    for n states flt t
  proof (cases "process_states pf states ft [] 0")
    case None
    then show ?thesis by (simp add: load_states_def close_def)
  next
    case (Some p)
    obtain records skipped where p: "p = (records, skipped)" by (cases p)
    have "?r \<in> set records"
      using process_states_records Some p mem acc by blast
    moreover have "\<forall>row. bind_row pf ?r = Inr row \<longrightarrow> \<not> constraints_ok row"
      using bad_position_source_row [where r = ?r and n = n and pf = pf] v n by simp
    ultimately show ?thesis
      using apply_batch_upsert_bad_row [where r = ?r and records = records and pf = pf
          and flt = flt and skipped = skipped and c = "\<lparr>durable = t, pending = None\<rparr>"]
        Some p
      by (simp add: load_states_def)
  qed
  then show ?thesis using acc by blast
qed

lemma scenario_normalized: "normalize pf (JList scenario_state) ft = Accepted (scenario_record ft)"
  by (simp add: scenario_state_def scenario_record_def eval_normalize)

theorem position_source_unchecked_witness:
  "normalize sample_platform (JList scenario_state) ''T''
       = Accepted (scenario_record ''T'')
   \<and> normalize sample_platform (JList (scenario_state[16 := JInt 5])) ''T''
       = Accepted ((scenario_record ''T'')\<lparr>position_source := JInt 5\<rparr>)
   \<and> (5::int) \<notin> {0, 1, 2}
   \<and> load_states sample_platform upsert NoFault
        (JList [JList scenario_state, JList (scenario_state[16 := JInt 5])]) ''T''
        \<lparr>durable = Map.empty, pending = None\<rparr>
       = (DatabaseError, Map.empty)"
proof -
  have h: "normalize sample_platform (JList scenario_state) ''T''
      = Accepted (scenario_record ''T'')"
    by (rule scenario_normalized)
  let ?r5 = "(scenario_record ''T'')\<lparr>position_source := JInt 5\<rparr>"
  let ?states = "[JList scenario_state, JList (scenario_state[16 := JInt 5])]"
  let ?run = "load_states sample_platform upsert NoFault (JList ?states) ''T''
      \<lparr>durable = Map.empty, pending = None\<rparr>"
  note th = position_source_unchecked [OF h, where v = "JInt 5"]
  have a: "normalize sample_platform (JList (scenario_state[16 := JInt 5])) ''T''
       = Accepted ?r5"
    using th by blast
  have b: "fst ?run \<in> {DatabaseError, Uncaught} \<and> snd ?run = Map.empty"
    using th [THEN conjunct2, rule_format, of 5 ?states NoFault Map.empty] by simp
  obtain row5 where b5: "bind_row sample_platform ?r5 = Inr row5"
    by (simp add: bind_row_def tuple_of_def scenario_record_def)
  have bad: "\<not> constraints_ok row5"
    using bad_position_source_row [OF b5, where n = 5] by simp
  have c: "fst ?run \<noteq> Uncaught"
    by (simp add: load_states_def h a eval_sink upsert_def b5 bad)
  have "?run = (DatabaseError, Map.empty)"
    using b c by (cases ?run) auto
  then show ?thesis using h a by simp
qed

section \<open>Properties of the fetcher\<close>

lemma attempts_loop_success:
  assumes "a \<le> N" and "N < b" and "\<forall>k. a \<le> k \<and> k < N \<longrightarrow> net k = RequestFailed"
      and "net N = Response d"
  shows "attempts_loop net [a..<b] = (Returned d, map (\<lambda>k. RETRY_BACKOFF_FACTOR ^ k) [a..<N])"
  using assms
proof (induction "N - a" arbitrary: a)
  case 0
  then have "a = N" by simp
  then show ?case using 0 by (simp add: upt_conv_Cons)
next
  case (Suc m)
  then have lt: "a < N" and ab: "a < b" by auto
  have f: "net a = RequestFailed" using Suc.prems(3) lt by simp
  have ih: "attempts_loop net [Suc a..<b]
      = (Returned d, map (\<lambda>k. RETRY_BACKOFF_FACTOR ^ k) [Suc a..<N])"
    using Suc.hyps(1) [of "Suc a"] Suc.hyps(2) Suc.prems lt by auto
  show ?case
    using f ih lt ab by (simp add: upt_conv_Cons)
qed

lemma attempts_loop_exhausted:
  assumes "\<forall>k. a \<le> k \<and> k < b \<longrightarrow> net k = RequestFailed"
  shows "attempts_loop net [a..<b] = (Returned JNull, map (\<lambda>k. RETRY_BACKOFF_FACTOR ^ k) [a..<b])"
  using assms
proof (induction "b - a" arbitrary: a)
  case 0
  then show ?case by simp
next
  case (Suc m)
  then have ab: "a < b" by auto
  have f: "net a = RequestFailed" using Suc.prems ab by simp
  have ih: "attempts_loop net [Suc a..<b]
      = (Returned JNull, map (\<lambda>k. RETRY_BACKOFF_FACTOR ^ k) [Suc a..<b])"
    using Suc.hyps(1) [of "Suc a"] Suc.hyps(2) Suc.prems by auto
  show ?case
    using f ih ab by (simp add: upt_conv_Cons)
qed

text \<open>
  Claim C5. For every \<open>N\<close> from 1 to the maximum number of attempts: when the requests
  of attempts 1 to \<open>N - 1\<close> fail with a request exception and the request of attempt
  \<open>N\<close> succeeds, the fetcher returns the decoded body of attempt \<open>N\<close>, having slept
  \<open>2 ^ k\<close> seconds after each failed attempt \<open>k\<close>, and the cycle goes on with that
  body. When the requests of all attempts fail, the fetcher returns \<^verbatim>\<open>None\<close> without
  raising, and the cycle ends at once, the store untouched.
\<close>

theorem fetch_with_retries:
  "(1 \<le> N \<and> N \<le> MAX_RETRIES \<and> (\<forall>k. 1 \<le> k \<and> k < N \<longrightarrow> net k = RequestFailed)
      \<and> net N = Response data \<longrightarrow>
        fetch_data_with_retries net
          = (Returned data, map (\<lambda>k. RETRY_BACKOFF_FACTOR ^ k) [1..<N])
      \<and> fetch_and_upsert_data pf net ft flt t = upsert_data pf data ft flt t)
   \<and> ((\<forall>k. 1 \<le> k \<and> k \<le> MAX_RETRIES \<longrightarrow> net k = RequestFailed) \<longrightarrow>
        fetch_data_with_retries net
          = (Returned JNull, map (\<lambda>k. RETRY_BACKOFF_FACTOR ^ k) [1..<MAX_RETRIES + 1])
      \<and> fetch_and_upsert_data pf net ft flt t = (NoData, t))"
proof (intro conjI impI)
  assume a: "1 \<le> N \<and> N \<le> MAX_RETRIES \<and> (\<forall>k. 1 \<le> k \<and> k < N \<longrightarrow> net k = RequestFailed)
      \<and> net N = Response data"
  then show f: "fetch_data_with_retries net
          = (Returned data, map (\<lambda>k. RETRY_BACKOFF_FACTOR ^ k) [1..<N])"
    unfolding fetch_data_with_retries_def
    by (intro attempts_loop_success) auto
  show "fetch_and_upsert_data pf net ft flt t = upsert_data pf data ft flt t"
    by (simp add: fetch_and_upsert_data_def f)
next
  assume a: "\<forall>k. 1 \<le> k \<and> k \<le> MAX_RETRIES \<longrightarrow> net k = RequestFailed"
  then show f: "fetch_data_with_retries net
          = (Returned JNull, map (\<lambda>k. RETRY_BACKOFF_FACTOR ^ k) [1..<MAX_RETRIES + 1])"
    unfolding fetch_data_with_retries_def
    by (intro attempts_loop_exhausted) auto
  show "fetch_and_upsert_data pf net ft flt t = (NoData, t)"
    by (simp add: fetch_and_upsert_data_def f upsert_data_def)
qed

lemma upsert_scenario_response:
  "upsert_data pf scenario_response ft NoFault Map.empty
           = (Written 1 0, one_row (scenario_row ft))"
proof -
  have "get_states scenario_response = Some (JList [JList scenario_state])"
    by (simp add: scenario_response_def str_def)
  then show ?thesis
    by (simp add: upsert_data_def scenario_response_def connect_def load_states_def
        scenario_normalized eval_sink upsert_def)
qed

theorem fetch_with_retries_witness:
  "(1::nat) \<le> 3 \<and> 3 \<le> MAX_RETRIES
   \<and> third_attempt 1 = RequestFailed \<and> third_attempt 2 = RequestFailed
   \<and> third_attempt 3 = Response scenario_response
   \<and> fetch_data_with_retries third_attempt = (Returned scenario_response, [2, 4])
   \<and> fetch_and_upsert_data sample_platform third_attempt ''T'' NoFault Map.empty
       = (Written 1 0, one_row (scenario_row ''T''))
   \<and> fetch_data_with_retries (\<lambda>k. RequestFailed) = (Returned JNull, [2, 4, 8, 16, 32])
   \<and> fetch_and_upsert_data sample_platform (\<lambda>k. RequestFailed) ''T'' NoFault
        (one_row (scenario_row ''T0''))
       = (NoData, one_row (scenario_row ''T0''))"
proof -
  have hyp: "1 \<le> (3::nat) \<and> 3 \<le> MAX_RETRIES
      \<and> (\<forall>k. 1 \<le> k \<and> k < 3 \<longrightarrow> third_attempt k = RequestFailed)
      \<and> third_attempt 3 = Response scenario_response"
    by (simp add: MAX_RETRIES_def third_attempt_def)
  note ok = fetch_with_retries [where N = 3 and net = third_attempt
      and data = scenario_response and pf = sample_platform and ft = "''T''"
      and flt = NoFault and t = Map.empty, THEN conjunct1, rule_format, OF hyp]
  note ko = fetch_with_retries [where N = 3 and net = "\<lambda>k. RequestFailed"
      and data = scenario_response and pf = sample_platform and ft = "''T''"
      and flt = NoFault and t = "one_row (scenario_row ''T0'')",
      THEN conjunct2, rule_format]
  show ?thesis
    using ok ko hyp
    by (simp add: MAX_RETRIES_def upt_conv_Cons RETRY_BACKOFF_FACTOR_def
        upsert_scenario_response third_attempt_def)
qed

section \<open>Accounting of the observations\<close>

text \<open>
  What the loop does count: the accepted records, the skipped observations and the
  observations dropped by the length guard add up to the number of states.
\<close>

lemma process_states_count:
  "process_states pf sts ft recs k = Some (records, skipped) \<Longrightarrow>
     length records + skipped + length (filter (\<lambda>s. normalize pf s ft = Dropped) sts)
       = length recs + k + length sts"
  by (induction sts arbitrary: recs k) (auto split: verdict.splits)

text \<open>
  A state that has no length ends the loop with an exception, which neither cycle
  function catches.
\<close>

lemma not_a_sequence_raises:
  "process_states pf [JList scenario_state, JNull] ft [] 0 = None"
proof -
  have "normalize pf JNull ft = Raised"
    by (simp add: normalize_def)
  then show ?thesis
    by (simp add: scenario_normalized)
qed

text \<open>
  Claim C6. The claim that accepted and skipped observations add up to the number of
  observations, short tuples included, fails on the code: of the two observations below,
  the one with a single field is dropped by the length guard without
  \<^verbatim>\<open>skipped += 1\<close>, so the loop ends with one record and a skipped count of 0, and
  the cycle reports one record written and none skipped.
\<close>

theorem short_state_not_counted:
  "process_states pf [JList scenario_state, JList [JStr (str ''ABC123'')]] ft [] 0
     = Some ([scenario_record ft], 0)
   \<and> length [scenario_record ft] + 0
       \<noteq> length [JList scenario_state, JList [JStr (str ''ABC123'')]]
   \<and> fetch_and_upsert_data pf
        (\<lambda>k. Response (JObj [(str ''states'',
                JList [JList scenario_state, JList [JStr (str ''ABC123'')]])]))
        ft NoFault Map.empty
       = (Written 1 0, one_row (scenario_row ft))"
proof -
  have short: "normalize pf (JList [JStr (str ''ABC123'')]) ft = Dropped" for ft
    by (simp add: normalize_list)
  show ?thesis
    by (simp add: scenario_normalized short fetch_and_upsert_data_def
        fetch_data_with_retries_def MAX_RETRIES_def upt_conv_Cons upsert_data_def connect_def
        load_states_def eval_sink upsert_def)
qed

section \<open>Properties of the schedulers\<close>

text \<open>
  The loop of the insert-or-ignore script sleeps the interval less the cost of the
  cycle, and not at all when the cycle took longer; the loop of the upsert script sleeps
  the whole interval after every cycle.
\<close>

lemma main_loop_append_sleeps:
  "main_loop_append now end_time costs
     = map (\<lambda>d. max 0 (FETCH_INTERVAL_SECONDS - d))
         (take (length (main_loop_append now end_time costs)) costs)"
  by (induction costs arbitrary: now) (simp_all add: Let_def)

lemma main_loop_upsert_sleeps:
  "main_loop_upsert now end_time costs
     = replicate (length (main_loop_upsert now end_time costs)) FETCH_INTERVAL_SECONDS"
  by (induction costs arbitrary: now) simp_all

text \<open>
  Claim C8. The claim that every scheduler cycle sleeps the interval less the measured
  cost of the cycle fails on the loop of the upsert script: after a cycle of 5 seconds
  it sleeps 600 seconds, where the claim asks for 595, which is what the loop of the
  insert-or-ignore script sleeps.
\<close>

theorem upsert_loop_ignores_cycle_cost:
  "main_loop_upsert 0 (24 * 3600) [5] = [600]
   \<and> max 0 (FETCH_INTERVAL_SECONDS - 5) = 595
   \<and> main_loop_append 0 (6 * 3600) [5] = [595]"
  by (simp add: FETCH_INTERVAL_SECONDS_def)

end
